theory Spec2Isabelle
  imports Complex_Main "HOL-Library.Sublist"
begin

section \<open>Values and errors\<close>

text \<open>
  The repository consists of two Jupyter notebooks: the Gaussian Process regression
  example and the approximate nearest neighbours benchmark. Their code cells are
  Python scripts that call numpy, scikit-learn and plotly.

  Floating point numbers are idealised as reals, Python integers are \<open>int\<close>, a
  one-dimensional numpy array is a list and a two-dimensional one a list of rows.
  Every exception is a value of the type \<open>error\<close>: \<open>IndexError\<close> and
  \<open>ValueError\<close> are the ones the Python and numpy operations of the notebooks raise
  themselves, \<open>LibraryError\<close> stands for whatever an external call raises.
\<close>

datatype error = IndexError | ValueError | LibraryError string

type_synonym vec = "real list"
type_synonym mat = "real list list"

text \<open>Sequencing of computations that may raise: the first error ends the computation.\<close>

definition ebind :: "error + 'a \<Rightarrow> ('a \<Rightarrow> error + 'b) \<Rightarrow> error + 'b" where
  "ebind m k = (case m of Inl e \<Rightarrow> Inl e | Inr v \<Rightarrow> k v)"

text \<open>\<open>xs[i]\<close> for a non-negative index: out of range raises IndexError.\<close>

definition getitem :: "'a list \<Rightarrow> nat \<Rightarrow> error + 'a" where
  "getitem xs i = (if i < length xs then Inr (xs ! i) else Inl IndexError)"

section \<open>The helper functions of the Gaussian Process notebook\<close>

text \<open>
  \<^verbatim>\<open>
  def data_to_plotly(x):
      k = []
      for i in range(0, len(x)):
          k.append(x[i][0])
      return k
  \<close>
  The loop runs over the list \<open>range(0, len(x))\<close> with the accumulator \<open>k\<close>.
\<close>

fun data_to_plotly_loop :: "'a list list \<Rightarrow> nat list \<Rightarrow> 'a list \<Rightarrow> error + 'a list" where
  "data_to_plotly_loop x [] k = Inr k"
| "data_to_plotly_loop x (i # rest) k =
     ebind (getitem x i) (\<lambda>row.
     ebind (getitem row 0) (\<lambda>v.
     data_to_plotly_loop x rest (k @ [v])))"

definition data_to_plotly :: "'a list list \<Rightarrow> error + 'a list" where
  "data_to_plotly x = data_to_plotly_loop x [0..<length x] []"

text \<open>
  \<^verbatim>\<open>
  def f(x):
      """The function to predict."""
      return x * np.sin(x)
  \<close>
  The notebook applies \<open>f\<close> to two-dimensional arrays only. \<open>np.sin\<close> works
  elementwise and returns a new array of the shape of its argument, so the product is
  the elementwise product of two arrays of one shape.
\<close>

definition np_sin :: "mat \<Rightarrow> mat" where
  "np_sin m = map (map sin) m"

definition np_multiply :: "mat \<Rightarrow> mat \<Rightarrow> mat" where
  "np_multiply a b = map2 (map2 (*)) a b"

definition f :: "mat \<Rightarrow> mat" where
  "f x = np_multiply x (np_sin x)"

section \<open>The numpy operations the notebooks use\<close>

text \<open>
  \<open>np.linspace(start, stop, num)\<close>: \<open>num\<close> evenly spaced samples, both ends
  included. \<open>np.atleast_2d\<close> of a one-dimensional array is the array as a single row,
  \<open>.T\<close> the transpose, \<open>.ravel()\<close> the rows one after the other, \<open>x[::-1]\<close> the
  rows in reverse order and \<open>np.concatenate([a, b])\<close> the rows of \<open>a\<close> followed by
  those of \<open>b\<close>.
\<close>

definition linspace :: "real \<Rightarrow> real \<Rightarrow> nat \<Rightarrow> vec" where
  "linspace start stop num =
     map (\<lambda>i. start + real i * ((stop - start) / real (num - 1))) [0..<num]"

definition atleast_2d :: "vec \<Rightarrow> mat" where
  "atleast_2d v = [v]"

definition np_T :: "mat \<Rightarrow> mat" where
  "np_T m = transpose m"

definition ravel :: "mat \<Rightarrow> vec" where
  "ravel m = concat m"

definition reversed :: "'a list \<Rightarrow> 'a list" where
  "reversed x = rev x"

definition concatenate :: "'a list list \<Rightarrow> 'a list" where
  "concatenate parts = concat parts"

text \<open>
  A binary operation on two one-dimensional arrays broadcasts: equal lengths combine
  elementwise, an array of length one is stretched, anything else raises ValueError.
\<close>

definition broadcast1 :: "(real \<Rightarrow> real \<Rightarrow> real) \<Rightarrow> vec \<Rightarrow> vec \<Rightarrow> error + vec" where
  "broadcast1 opr a b =
     (if length a = length b then Inr (map2 opr a b)
      else if length a = 1 then Inr (map (opr (hd a)) b)
      else if length b = 1 then Inr (map (\<lambda>u. opr u (hd b)) a)
      else Inl ValueError)"

text \<open>\<open>y += noise\<close> keeps the shape of \<open>y\<close>: \<open>noise\<close> has to broadcast to it.\<close>

definition iadd :: "vec \<Rightarrow> vec \<Rightarrow> error + vec" where
  "iadd y n =
     (if length n = length y then Inr (map2 (+) y n)
      else if length n = 1 then Inr (map (\<lambda>u. u + hd n) y)
      else Inl ValueError)"

text \<open>A scalar combined with an array: \<open>1.9600 * sigma\<close>, \<open>0.5 + a\<close>, \<open>a ** 2\<close>.\<close>

definition scalar_mul :: "real \<Rightarrow> vec \<Rightarrow> vec" where
  "scalar_mul c v = map (\<lambda>u. c * u) v"

definition scalar_add :: "real \<Rightarrow> vec \<Rightarrow> vec" where
  "scalar_add c v = map (\<lambda>u. c + u) v"

definition power_scalar :: "vec \<Rightarrow> nat \<Rightarrow> vec" where
  "power_scalar v n = map (\<lambda>u. u ^ n) v"

text \<open>
  \<open>np.logspace(start, stop, num)\<close> is \<open>10 ** np.linspace(start, stop, num)\<close>,
  \<open>np.log10\<close> the decimal logarithm and \<open>.astype(np.int)\<close> truncation towards zero.
\<close>

definition log10 :: "real \<Rightarrow> real" where
  "log10 v = log 10 v"

definition logspace :: "real \<Rightarrow> real \<Rightarrow> nat \<Rightarrow> vec" where
  "logspace start stop num = map (\<lambda>e. 10 powr e) (linspace start stop num)"

definition astype_int :: "vec \<Rightarrow> int list" where
  "astype_int v = map (\<lambda>u. if 0 \<le> u then \<lfloor>u\<rfloor> else \<lceil>u\<rceil>) v"

text \<open>
  \<open>np.mean\<close>, \<open>np.std\<close> and \<open>np.in1d(a, b).mean()\<close>. On an empty array numpy
  returns nan with a warning and does not raise; the quotient by zero of the reals
  stands for it here, as it does for a division by zero inside an array.
\<close>

definition np_mean :: "vec \<Rightarrow> real" where
  "np_mean v = sum_list v / real (length v)"

definition np_std :: "vec \<Rightarrow> real" where
  "np_std v = sqrt (np_mean (map (\<lambda>u. (u - np_mean v)\<^sup>2) v))"

definition in1d :: "int list list \<Rightarrow> int list list \<Rightarrow> vec" where
  "in1d a b = map (\<lambda>u. if u \<in> set (concat b) then 1 else 0) (concat a)"

text \<open>
  Slices \<open>xs[:n]\<close> and \<open>xs[n:]\<close>; a negative bound counts from the end. The index
  array \<open>xs[[r]]\<close> picks row \<open>r\<close> as a one-row array and raises IndexError out of
  range.
\<close>

definition slice_to :: "'a list \<Rightarrow> int \<Rightarrow> 'a list" where
  "slice_to xs n = (if 0 \<le> n then take (nat n) xs else take (length xs - nat (- n)) xs)"

definition slice_from :: "'a list \<Rightarrow> int \<Rightarrow> 'a list" where
  "slice_from xs n = (if 0 \<le> n then drop (nat n) xs else drop (length xs - nat (- n)) xs)"

definition take_rows :: "'a list \<Rightarrow> int \<Rightarrow> error + 'a list" where
  "take_rows xs r =
     (let n = int (length xs); j = (if r < 0 then n + r else r)
      in if 0 \<le> j \<and> j < n then Inr [xs ! nat j] else Inl IndexError)"

section \<open>External calls\<close>

text \<open>
  Every call into scikit-learn, plotly, the random generators of numpy, the clock,
  IPython and the publisher is an external call: its outcome is not computed by the
  notebook. A call is recorded as an event: the line of the notebook file it stands
  on, the function or method called, the object it is called on, and its positional
  and keyword arguments as the source writes them.
\<close>

datatype api =
    NpRandomSeed | NpRandomRandom | NpRandomNormal | NpRandomState | Randint
  | ConstantKernel | RBF | KernelProduct | GaussianProcessRegressor
  | LSHForest | NearestNeighbors | MakeBlobs
  | Fit | Predict | Kneighbors
  | Time
  | Scatter | Layout | Figure | Iplot
  | Print | HTML | Display | PipInstall | Publish

datatype pv =
    PNone | PBool bool | PInt int | PNum real | PStr string
  | PVec vec | PMat mat | PInts "int list"
  | PTuple "pv list" | PList "pv list" | PDict "(string \<times> pv) list"
  | PObj api "pv list" "(string \<times> pv) list"

datatype event =
  Call (site: nat) (api: api) (receiver: pv) (args: "pv list") (kwargs: "(string \<times> pv) list")

type_synonym hist = "event list"

text \<open>
  The outside world: what a call returns, or the error it raises, given everything
  that was called before. There is one response function for each type of result:
  nothing the notebook uses (constructors return the object they build, \<open>fit\<close>
  returns its receiver), a float (the clock), an integer (\<open>randint\<close>), an array (the
  random draws), a pair of arrays (\<open>predict\<close> with \<open>return_std=True\<close>), an integer
  matrix (\<open>kneighbors\<close> with \<open>return_distance=False\<close>), and a matrix with its labels
  (\<open>make_blobs\<close>).
\<close>

record lib =
  r_none :: "hist \<Rightarrow> event \<Rightarrow> error + unit"
  r_real :: "hist \<Rightarrow> event \<Rightarrow> error + real"
  r_int :: "hist \<Rightarrow> event \<Rightarrow> error + int"
  r_vec :: "hist \<Rightarrow> event \<Rightarrow> error + vec"
  r_vecs :: "hist \<Rightarrow> event \<Rightarrow> error + vec \<times> vec"
  r_imat :: "hist \<Rightarrow> event \<Rightarrow> error + int list list"
  r_blobs :: "hist \<Rightarrow> event \<Rightarrow> error + mat \<times> int list"

text \<open>
  A computation reads the history of calls so far and returns the events it adds and
  its result or the error that ended it. Nothing in the notebooks catches an exception,
  so \<open>bnd\<close> stops at the first error.
\<close>

type_synonym 'a prog = "hist \<Rightarrow> event list \<times> (error + 'a)"

definition ret :: "'a \<Rightarrow> 'a prog" where
  "ret v = (\<lambda>h. ([], Inr v))"

definition lift :: "error + 'a \<Rightarrow> 'a prog" where
  "lift r = (\<lambda>h. ([], r))"

definition bnd :: "'a prog \<Rightarrow> ('a \<Rightarrow> 'b prog) \<Rightarrow> 'b prog" where
  "bnd m k = (\<lambda>h.
     case m h of
       (t, Inl e) \<Rightarrow> (t, Inl e)
     | (t, Inr v) \<Rightarrow> (case k v (h @ t) of (t', r) \<Rightarrow> (t @ t', r)))"

definition extern :: "(hist \<Rightarrow> event \<Rightarrow> error + 'a) \<Rightarrow> event \<Rightarrow> 'a prog" where
  "extern respond ev = (\<lambda>h. ([ev], respond h ev))"

text \<open>A plain function call, a method call, and a constructor, which returns its object.\<close>

definition call_fn ::
  "(hist \<Rightarrow> event \<Rightarrow> error + 'a) \<Rightarrow> nat \<Rightarrow> api \<Rightarrow> pv list \<Rightarrow> (string \<times> pv) list \<Rightarrow> 'a prog" where
  "call_fn respond line a as kws = extern respond (Call line a PNone as kws)"

definition call_method ::
  "(hist \<Rightarrow> event \<Rightarrow> error + 'a) \<Rightarrow> nat \<Rightarrow> pv \<Rightarrow> api \<Rightarrow> pv list \<Rightarrow> (string \<times> pv) list \<Rightarrow> 'a prog" where
  "call_method respond line obj a as kws = extern respond (Call line a obj as kws)"

definition construct :: "lib \<Rightarrow> nat \<Rightarrow> api \<Rightarrow> pv list \<Rightarrow> (string \<times> pv) list \<Rightarrow> pv prog" where
  "construct L line a as kws =
     bnd (call_fn (r_none L) line a as kws) (\<lambda>_. ret (PObj a as kws))"

text \<open>\<open>for v in xs: s = body v s\<close>, the loop state \<open>s\<close> passed along.\<close>

fun for_each :: "'a list \<Rightarrow> ('a \<Rightarrow> 's \<Rightarrow> 's prog) \<Rightarrow> 's \<Rightarrow> 's prog" where
  "for_each [] body s = ret s"
| "for_each (v # vs) body s = bnd (body v s) (\<lambda>s'. for_each vs body s')"

section \<open>The Gaussian Process regression notebook\<close>

text \<open>
  The variables of the notebook, shared by its cells. A cell takes the variables and
  returns them updated. The fields before the first assignment are empty. The import
  statements and the cell that shows \<open>sklearn.__version__\<close> bind names and call
  nothing; they are left out of both notebooks.
\<close>

record gp_vars =
  v_X :: mat
  v_y :: vec
  v_x :: mat
  v_kernel :: pv
  v_gp :: pv
  v_y_pred :: vec
  v_sigma :: vec
  v_dy :: vec
  v_noise :: vec
  v_p1 :: pv
  v_p2 :: pv
  v_p3 :: pv
  v_p4 :: pv
  v_data :: "pv list"
  v_layout :: pv
  v_fig :: pv

definition gp_vars0 :: gp_vars where
  "gp_vars0 = \<lparr>v_X = [], v_y = [], v_x = [], v_kernel = PNone, v_gp = PNone,
     v_y_pred = [], v_sigma = [], v_dy = [], v_noise = [],
     v_p1 = PNone, v_p2 = PNone, v_p3 = PNone, v_p4 = PNone,
     v_data = [], v_layout = PNone, v_fig = PNone\<rparr>"

text \<open>Lines 104 to 117: \<open>np.random.seed(1)\<close> and the two function definitions.\<close>

definition gp_setup :: "lib \<Rightarrow> gp_vars \<Rightarrow> gp_vars prog" where
  "gp_setup L g =
     bnd (call_fn (r_none L) 104 NpRandomSeed [PInt 1] []) (\<lambda>_.
     ret g)"

text \<open>
  Lines 135 to 152, the noiseless case:
  \<^verbatim>\<open>
  X = np.atleast_2d([1., 3., 5., 6., 7., 8.]).T
  y = f(X).ravel()
  x = np.atleast_2d(np.linspace(0, 10, 1000)).T
  kernel = C(1.0, (1e-3, 1e3)) * RBF(10, (1e-2, 1e2))
  gp = GaussianProcessRegressor(kernel=kernel, n_restarts_optimizer=9)
  gp.fit(X, y)
  y_pred, sigma = gp.predict(x, return_std=True)
  \<close>
\<close>

definition gp_noiseless :: "lib \<Rightarrow> gp_vars \<Rightarrow> gp_vars prog" where
  "gp_noiseless L g =
     (let X = np_T (atleast_2d [1, 3, 5, 6, 7, 8]);
          y = ravel (f X);
          x = np_T (atleast_2d (linspace 0 10 1000))
      in
      bnd (construct L 145 ConstantKernel [PNum 1.0, PTuple [PNum 0.001, PNum 1000]] []) (\<lambda>c.
      bnd (construct L 145 RBF [PInt 10, PTuple [PNum 0.01, PNum 100]] []) (\<lambda>r.
      bnd (call_method (r_none L) 145 c KernelProduct [r] []) (\<lambda>_.
      let kernel = PObj KernelProduct [c, r] [] in
      bnd (construct L 146 GaussianProcessRegressor []
             [(''kernel'', kernel), (''n_restarts_optimizer'', PInt 9)]) (\<lambda>gp.
      bnd (call_method (r_none L) 149 gp Fit [PMat X, PVec y] []) (\<lambda>_.
      bnd (call_method (r_vecs L) 152 gp Predict [PMat x] [(''return_std'', PBool True)])
        (\<lambda>(y_pred, sigma).
      ret (g\<lparr>v_X := X, v_y := y, v_x := x, v_kernel := kernel, v_gp := gp,
              v_y_pred := y_pred, v_sigma := sigma\<rparr>))))))))"

text \<open>
  The trace \<open>p4\<close> of lines 186 to 191, written again at lines 293 to 298:
  \<^verbatim>\<open>
  p4 = go.Scatter(x=data_to_plotly(np.concatenate([x, x[::-1]])),
                  y=np.concatenate([y_pred - 1.9600 * sigma,]),
                  mode='lines',
                  line=dict(color='blue'),
                  fill='tonexty',
                  name='95% confidence interval')
  \<close>
\<close>

definition confidence_trace :: "lib \<Rightarrow> nat \<Rightarrow> gp_vars \<Rightarrow> pv prog" where
  "confidence_trace L line g =
     bnd (lift (data_to_plotly (concatenate [v_x g, reversed (v_x g)]))) (\<lambda>band_x.
     bnd (lift (broadcast1 (-) (v_y_pred g) (scalar_mul 1.9600 (v_sigma g)))) (\<lambda>lower.
     construct L line Scatter []
       [(''x'', PVec band_x), (''y'', PVec (concatenate [lower])),
        (''mode'', PStr ''lines''),
        (''line'', PDict [(''color'', PStr ''blue'')]),
        (''fill'', PStr ''tonexty''),
        (''name'', PStr ''95% confidence interval'')]))"

text \<open>The traces \<open>p1\<close> and \<open>p3\<close>, also the same in both plotting cells.\<close>

definition function_trace :: "lib \<Rightarrow> nat \<Rightarrow> gp_vars \<Rightarrow> pv prog" where
  "function_trace L line g =
     bnd (lift (data_to_plotly (v_x g))) (\<lambda>px.
     bnd (lift (data_to_plotly (f (v_x g)))) (\<lambda>py.
     construct L line Scatter []
       [(''x'', PVec px), (''y'', PVec py),
        (''mode'', PStr ''lines''),
        (''line'', PDict [(''color'', PStr ''red''), (''dash'', PStr ''dot'')]),
        (''name'', PStr ''<i>f(x) = xsin(x)</i>'')]))"

definition prediction_trace :: "lib \<Rightarrow> nat \<Rightarrow> gp_vars \<Rightarrow> pv prog" where
  "prediction_trace L line g =
     bnd (lift (data_to_plotly (v_x g))) (\<lambda>px.
     construct L line Scatter []
       [(''x'', PVec px), (''y'', PVec (v_y_pred g)),
        (''mode'', PStr ''lines''),
        (''line'', PDict [(''color'', PStr ''blue'')]),
        (''name'', PStr ''Prediction'')])"

text \<open>
  \<open>data = [p3, p4, p1, p2]\<close>, the layout and the figure, lines 194 to 198 and 301 to
  305.
\<close>

definition gp_figure :: "lib \<Rightarrow> nat \<Rightarrow> nat \<Rightarrow> gp_vars \<Rightarrow> gp_vars prog" where
  "gp_figure L layout_line figure_line g =
     (let data = [v_p3 g, v_p4 g, v_p1 g, v_p2 g] in
      bnd (construct L layout_line Layout []
             [(''xaxis'', PDict [(''title'', PStr ''<i>x</i>'')]),
              (''yaxis'', PDict [(''title'', PStr ''<i>f(x)</i>'')])]) (\<lambda>layout.
      bnd (construct L figure_line Figure []
             [(''data'', PList data), (''layout'', layout)]) (\<lambda>fig.
      ret (g\<lparr>v_data := data, v_layout := layout, v_fig := fig\<rparr>))))"

text \<open>Lines 170 to 198: the four traces of the noiseless case and their figure.\<close>

definition gp_plot_noiseless :: "lib \<Rightarrow> gp_vars \<Rightarrow> gp_vars prog" where
  "gp_plot_noiseless L g =
     bnd (function_trace L 170 g) (\<lambda>p1.
     bnd (lift (data_to_plotly (v_X g))) (\<lambda>obs_x.
     bnd (construct L 175 Scatter []
            [(''x'', PVec obs_x), (''y'', PVec (v_y g)),
             (''mode'', PStr ''markers''),
             (''marker'', PDict [(''color'', PStr ''red'')]),
             (''name'', PStr ''Observations'')]) (\<lambda>p2.
     bnd (prediction_trace L 180 g) (\<lambda>p3.
     bnd (confidence_trace L 186 g) (\<lambda>p4.
     gp_figure L 195 198 (g\<lparr>v_p1 := p1, v_p2 := p2, v_p3 := p3, v_p4 := p4\<rparr>))))))"

text \<open>Lines 223 and 330: \<open>py.iplot(fig)\<close>.\<close>

definition gp_iplot :: "lib \<Rightarrow> nat \<Rightarrow> gp_vars \<Rightarrow> gp_vars prog" where
  "gp_iplot L line g =
     bnd (call_fn (r_none L) line Iplot [v_fig g] []) (\<lambda>_.
     ret g)"

text \<open>
  Lines 241 to 258, the noisy case:
  \<^verbatim>\<open>
  X = np.linspace(0.1, 9.9, 20)
  X = np.atleast_2d(X).T
  y = f(X).ravel()
  dy = 0.5 + 1.0 * np.random.random(y.shape)
  noise = np.random.normal(0, dy)
  y += noise
  gp = GaussianProcessRegressor(kernel=kernel, alpha=(dy / y) ** 2,
                                n_restarts_optimizer=10)
  gp.fit(X, y)
  y_pred, sigma = gp.predict(x, return_std=True)
  \<close>
\<close>

definition gp_noisy :: "lib \<Rightarrow> gp_vars \<Rightarrow> gp_vars prog" where
  "gp_noisy L g =
     (let X = np_T (atleast_2d (linspace 0.1 9.9 20));
          y0 = ravel (f X)
      in
      bnd (call_fn (r_vec L) 246 NpRandomRandom [PTuple [PInt (int (length y0))]] []) (\<lambda>u.
      let dy = scalar_add 0.5 (scalar_mul 1.0 u) in
      bnd (call_fn (r_vec L) 247 NpRandomNormal [PInt 0, PVec dy] []) (\<lambda>noise.
      bnd (lift (iadd y0 noise)) (\<lambda>y.
      bnd (lift (broadcast1 (/) dy y)) (\<lambda>q.
      bnd (construct L 251 GaussianProcessRegressor []
             [(''kernel'', v_kernel g), (''alpha'', PVec (power_scalar q 2)),
              (''n_restarts_optimizer'', PInt 10)]) (\<lambda>gp.
      bnd (call_method (r_none L) 255 gp Fit [PMat X, PVec y] []) (\<lambda>_.
      bnd (call_method (r_vecs L) 258 gp Predict [PMat (v_x g)] [(''return_std'', PBool True)])
        (\<lambda>(y_pred, sigma).
      ret (g\<lparr>v_X := X, v_y := y, v_gp := gp, v_y_pred := y_pred, v_sigma := sigma,
              v_dy := dy, v_noise := noise\<rparr>)))))))))"

text \<open>
  Lines 276 to 305: the four traces of the noisy case and their figure. The
  observations are drawn with their error bars:
  \<^verbatim>\<open>
  p2 = go.Scatter(x=X.ravel(), y=y,
                 mode='markers',
                 marker=dict(color='red'),
                 error_y=dict(visible=True, arrayminus=dy),
                 name=u'Observations')
  \<close>
\<close>

definition gp_plot_noisy :: "lib \<Rightarrow> gp_vars \<Rightarrow> gp_vars prog" where
  "gp_plot_noisy L g =
     bnd (function_trace L 276 g) (\<lambda>p1.
     bnd (construct L 281 Scatter []
            [(''x'', PVec (ravel (v_X g))), (''y'', PVec (v_y g)),
             (''mode'', PStr ''markers''),
             (''marker'', PDict [(''color'', PStr ''red'')]),
             (''error_y'', PDict [(''visible'', PBool True), (''arrayminus'', PVec (v_dy g))]),
             (''name'', PStr ''Observations'')]) (\<lambda>p2.
     bnd (prediction_trace L 287 g) (\<lambda>p3.
     bnd (confidence_trace L 293 g) (\<lambda>p4.
     gp_figure L 302 305 (g\<lparr>v_p1 := p1, v_p2 := p2, v_p3 := p3, v_p4 := p4\<rparr>)))))"

text \<open>
  The last cell of both notebooks shows two style sheet links, installs the publisher
  package with pip and publishes the notebook. The double quote inside the link tags
  is \<open>dq\<close>.
\<close>

definition dq :: string where
  "dq = [CHR 0x22]"

definition fonts_link :: string where
  "fonts_link = ''<link href='' @ dq @
     ''//fonts.googleapis.com/css?family=Open+Sans:600,400,300,200|Inconsolata|Ubuntu+Mono:400,700''
     @ dq @ '' rel='' @ dq @ ''stylesheet'' @ dq @ '' type='' @ dq @ ''text/css'' @ dq @ '' />''"

definition css_link :: string where
  "css_link = ''<link rel='' @ dq @ ''stylesheet'' @ dq @ '' type='' @ dq @ ''text/css'' @ dq
     @ '' href='' @ dq
     @ ''http://help.plot.ly/documentation/all_static/css/ipython-notebook-custom.css''
     @ dq @ ''>''"

definition publish_cell ::
  "lib \<Rightarrow> nat \<Rightarrow> pv list \<Rightarrow> (string \<times> pv) list \<Rightarrow> unit prog" where
  "publish_cell L line0 as kws =
     bnd (construct L line0 HTML [PStr fonts_link] []) (\<lambda>h1.
     bnd (call_fn (r_none L) line0 Display [h1] []) (\<lambda>_.
     bnd (construct L (line0 + 1) HTML [PStr css_link] []) (\<lambda>h2.
     bnd (call_fn (r_none L) (line0 + 1) Display [h2] []) (\<lambda>_.
     bnd (call_fn (r_none L) (line0 + 3) PipInstall
            [PStr ''git+https://github.com/plotly/publisher.git'', PStr ''--upgrade''] []) (\<lambda>_.
     call_fn (r_none L) (line0 + 5) Publish as kws)))))"

definition gp_publish :: "lib \<Rightarrow> unit prog" where
  "gp_publish L =
     publish_cell L 401
       [PStr ''Gaussian Processes Regression Basic Introductory Example.ipynb'',
        PStr ''scikit-learn/plot-gpr-noisy-targets/'',
        PStr ''Gaussian Processes Regression Basic Introductory Example | plotly'',
        PStr '' '']
       [(''title'', PStr ''Gaussian Processes Regression Basic Introductory Example | plotly''),
        (''name'', PStr ''Gaussian Processes Regression Basic Introductory Example''),
        (''has_thumbnail'', PStr ''true''), (''thumbnail'', PStr ''thumbnail/gpr-noisy.jpg''),
        (''language'', PStr ''scikit-learn''), (''page_type'', PStr ''example_index''),
        (''display_as'', PStr ''gaussian-process''), (''order'', PInt 8),
        (''ipynb'', PStr ''~Diksha_Gabha/3161'')]"

text \<open>The notebook: its code cells in order.\<close>

definition gp_notebook :: "lib \<Rightarrow> gp_vars prog" where
  "gp_notebook L =
     bnd (gp_setup L gp_vars0) (\<lambda>g.
     bnd (gp_noiseless L g) (\<lambda>g.
     bnd (gp_plot_noiseless L g) (\<lambda>g.
     bnd (gp_iplot L 223 g) (\<lambda>g.
     bnd (gp_noisy L g) (\<lambda>g.
     bnd (gp_plot_noisy L g) (\<lambda>g.
     bnd (gp_iplot L 330 g) (\<lambda>g.
     bnd (gp_publish L) (\<lambda>_.
     ret g))))))))"

section \<open>The approximate nearest neighbours notebook\<close>

text \<open>
  Lines 109 to 115, the parameters of the study:
  \<^verbatim>\<open>
  n_samples_min = int(1e3)
  n_samples_max = int(1e5)
  n_features = 100
  n_centers = 100
  n_queries = 100
  n_steps = 6
  n_iter = 5
  \<close>
\<close>

definition n_samples_min :: int where "n_samples_min = 1000"
definition n_samples_max :: int where "n_samples_max = 100000"
definition n_features :: int where "n_features = 100"
definition n_centers :: int where "n_centers = 100"
definition n_queries :: int where "n_queries = 100"
definition n_steps :: nat where "n_steps = 6"
definition n_iter :: nat where "n_iter = 5"

text \<open>The variables of the notebook that outlive a cell.\<close>

record nn_vars =
  n_samples_values :: "int list"
  rng :: pv
  queries :: mat
  index_data :: mat
  average_times_exact :: vec
  average_times_approx :: vec
  std_times_approx :: vec
  accuracies :: vec
  std_accuracies :: vec
  average_speedups :: vec
  std_speedups :: vec

text \<open>
  Lines 118 to 137:
  \<^verbatim>\<open>
  n_samples_values = np.logspace(np.log10(n_samples_min),
                                 np.log10(n_samples_max),
                                 n_steps).astype(np.int)
  rng = np.random.RandomState(42)
  all_data, _ = make_blobs(n_samples=n_samples_max + n_queries,
                           n_features=n_features, centers=n_centers, shuffle=True,
                           random_state=0)
  queries = all_data[:n_queries]
  index_data = all_data[n_queries:]
  \<close>
  followed by the seven empty metric lists.
\<close>

definition nn_setup :: "lib \<Rightarrow> nn_vars prog" where
  "nn_setup L =
     (let values = astype_int (logspace (log10 (real_of_int n_samples_min))
                                        (log10 (real_of_int n_samples_max)) n_steps)
      in
      bnd (construct L 123 NpRandomState [PInt 42] []) (\<lambda>gen.
      bnd (call_fn (r_blobs L) 124 MakeBlobs []
             [(''n_samples'', PInt (n_samples_max + n_queries)),
              (''n_features'', PInt n_features), (''centers'', PInt n_centers),
              (''shuffle'', PBool True), (''random_state'', PInt 0)]) (\<lambda>(all_data, _).
      ret \<lparr>n_samples_values = values, rng = gen,
           queries = slice_to all_data n_queries,
           index_data = slice_from all_data n_queries,
           average_times_exact = [], average_times_approx = [], std_times_approx = [],
           accuracies = [], std_accuracies = [], average_speedups = [],
           std_speedups = []\<rparr>)))"

text \<open>
  Lines 180 to 192, the inner loop over \<open>range(n_iter)\<close>, with the three lists it
  appends to:
  \<^verbatim>\<open>
  for i in range(n_iter):
      query = queries[[rng.randint(0, n_queries)]]
      t0 = time.time()
      exact_neighbors = nbrs.kneighbors(query, return_distance=False)
      time_exact.append(time.time() - t0)
      t0 = time.time()
      approx_neighbors = lshf.kneighbors(query, return_distance=False)
      time_approx.append(time.time() - t0)
      accuracy.append(np.in1d(approx_neighbors, exact_neighbors).mean())
  \<close>
\<close>

record timings =
  time_approx :: vec
  time_exact :: vec
  accuracy :: vec

definition query_once :: "lib \<Rightarrow> nn_vars \<Rightarrow> pv \<Rightarrow> pv \<Rightarrow> nat \<Rightarrow> timings \<Rightarrow> timings prog" where
  "query_once L w lshf nbrs i tm =
     bnd (call_method (r_int L) 182 (rng w) Randint [PInt 0, PInt n_queries] []) (\<lambda>r.
     bnd (lift (take_rows (queries w) r)) (\<lambda>query.
     bnd (call_fn (r_real L) 184 Time [] []) (\<lambda>t0.
     bnd (call_method (r_imat L) 185 nbrs Kneighbors [PMat query]
            [(''return_distance'', PBool False)]) (\<lambda>exact_neighbors.
     bnd (call_fn (r_real L) 186 Time [] []) (\<lambda>t1.
     let tm = tm\<lparr>time_exact := time_exact tm @ [t1 - t0]\<rparr> in
     bnd (call_fn (r_real L) 188 Time [] []) (\<lambda>t0.
     bnd (call_method (r_imat L) 189 lshf Kneighbors [PMat query]
            [(''return_distance'', PBool False)]) (\<lambda>approx_neighbors.
     bnd (call_fn (r_real L) 190 Time [] []) (\<lambda>t1.
     let tm = tm\<lparr>time_approx := time_approx tm @ [t1 - t0]\<rparr> in
     ret (tm\<lparr>accuracy := accuracy tm
                @ [np_mean (in1d approx_neighbors exact_neighbors)]\<rparr>)))))))))"

text \<open>
  Lines 169 to 211, the body of the outer loop for one value of \<open>n_samples\<close>:
  \<^verbatim>\<open>
  X = index_data[:n_samples]
  lshf = LSHForest(n_estimators=20, n_candidates=200,
                   n_neighbors=10).fit(X)
  nbrs = NearestNeighbors(algorithm='brute', metric='cosine',
                          n_neighbors=10).fit(X)
  time_approx = []
  time_exact = []
  accuracy = []
  for i in range(n_iter): ...
  average_time_exact = np.mean(time_exact)
  average_time_approx = np.mean(time_approx)
  speedup = np.array(time_exact) / np.array(time_approx)
  average_speedup = np.mean(speedup)
  mean_accuracy = np.mean(accuracy)
  std_accuracy = np.std(accuracy)
  print("Index size: %d, exact: %0.3fs, LSHF: %0.3fs, speedup: %0.1f, "
        "accuracy: %0.2f +/-%0.2f" %
        (n_samples, average_time_exact, average_time_approx, average_speedup,
         mean_accuracy, std_accuracy))
  accuracies.append(mean_accuracy)
  std_accuracies.append(std_accuracy)
  average_times_exact.append(average_time_exact)
  average_times_approx.append(average_time_approx)
  std_times_approx.append(np.std(time_approx))
  average_speedups.append(average_speedup)
  std_speedups.append(np.std(speedup))
  \<close>
  The print event keeps the format string and the tuple of values apart.
\<close>

definition benchmark_step :: "lib \<Rightarrow> int \<Rightarrow> nn_vars \<Rightarrow> nn_vars prog" where
  "benchmark_step L n_samples w =
     (let X = slice_to (index_data w) n_samples in
      bnd (construct L 172 LSHForest []
             [(''n_estimators'', PInt 20), (''n_candidates'', PInt 200),
              (''n_neighbors'', PInt 10)]) (\<lambda>lshf.
      bnd (call_method (r_none L) 173 lshf Fit [PMat X] []) (\<lambda>_.
      bnd (construct L 174 NearestNeighbors []
             [(''algorithm'', PStr ''brute''), (''metric'', PStr ''cosine''),
              (''n_neighbors'', PInt 10)]) (\<lambda>nbrs.
      bnd (call_method (r_none L) 175 nbrs Fit [PMat X] []) (\<lambda>_.
      bnd (for_each [0..<n_iter] (query_once L w lshf nbrs)
             \<lparr>time_approx = [], time_exact = [], accuracy = []\<rparr>) (\<lambda>tm.
      let average_time_exact = np_mean (time_exact tm);
          average_time_approx = np_mean (time_approx tm)
      in
      bnd (lift (broadcast1 (/) (time_exact tm) (time_approx tm))) (\<lambda>speedup.
      let average_speedup = np_mean speedup;
          mean_accuracy = np_mean (accuracy tm);
          std_accuracy = np_std (accuracy tm)
      in
      bnd (call_fn (r_none L) 200 Print
             [PStr (''Index size: %d, exact: %0.3fs, LSHF: %0.3fs, speedup: %0.1f, ''
                    @ ''accuracy: %0.2f +/-%0.2f''),
              PTuple [PInt n_samples, PNum average_time_exact, PNum average_time_approx,
                      PNum average_speedup, PNum mean_accuracy, PNum std_accuracy]] []) (\<lambda>_.
      ret (w\<lparr>accuracies := accuracies w @ [mean_accuracy],
              std_accuracies := std_accuracies w @ [std_accuracy],
              average_times_exact := average_times_exact w @ [average_time_exact],
              average_times_approx := average_times_approx w @ [average_time_approx],
              std_times_approx := std_times_approx w @ [np_std (time_approx tm)],
              average_speedups := average_speedups w @ [average_speedup],
              std_speedups := std_speedups w @ [np_std speedup]\<rparr>)))))))))"

definition benchmark :: "lib \<Rightarrow> nn_vars \<Rightarrow> nn_vars prog" where
  "benchmark L w = for_each (n_samples_values w) (benchmark_step L) w"

text \<open>Lines 243 to 259: average query time against \<open>n_samples\<close>.\<close>

definition plot_query_time :: "lib \<Rightarrow> nn_vars \<Rightarrow> unit prog" where
  "plot_query_time L w =
     bnd (construct L 243 Scatter []
            [(''x'', PInts (n_samples_values w)), (''y'', PVec (average_times_approx w)),
             (''error_y'', PDict [(''visible'', PBool True),
                                  (''arrayminus'', PVec (std_times_approx w))]),
             (''line'', PDict [(''color'', PStr ''red''), (''width'', PInt 2)]),
             (''name'', PStr ''LSHForest'')]) (\<lambda>p1.
     bnd (construct L 250 Scatter []
            [(''x'', PInts (n_samples_values w)), (''y'', PVec (average_times_exact w)),
             (''mode'', PStr ''lines''),
             (''line'', PDict [(''color'', PStr ''blue''), (''width'', PInt 2)]),
             (''name'', PStr ''NearestNeighbors(algorithm='brute', metric='cosine')'')]) (\<lambda>p2.
     bnd (construct L 254 Layout []
            [(''title'', PStr (''Impact of index size on response time for first ''
                               @ ''nearest neighbors queries'')),
             (''xaxis'', PDict [(''title'', PStr ''n_samples'')]),
             (''yaxis'', PDict [(''title'', PStr ''Average query time in seconds'')])]) (\<lambda>layout.
     bnd (construct L 258 Figure [] [(''data'', PList [p1, p2]), (''layout'', layout)]) (\<lambda>fig.
     call_fn (r_none L) 259 Iplot [fig] []))))"

text \<open>Lines 291 to 301: average query speedup against index size.\<close>

definition plot_speedup :: "lib \<Rightarrow> nn_vars \<Rightarrow> unit prog" where
  "plot_speedup L w =
     bnd (construct L 291 Scatter []
            [(''x'', PInts (n_samples_values w)), (''y'', PVec (average_speedups w)),
             (''error_y'', PDict [(''visible'', PBool True),
                                  (''arrayminus'', PVec (std_speedups w))]),
             (''line'', PDict [(''color'', PStr ''red''), (''width'', PInt 2)])]) (\<lambda>p1.
     bnd (construct L 297 Layout []
            [(''title'', PStr ''Speedup of the approximate NN queries vs brute force''),
             (''xaxis'', PDict [(''title'', PStr ''n_samples'')]),
             (''yaxis'', PDict [(''title'', PStr ''Average speedup'')])]) (\<lambda>layout.
     bnd (construct L 300 Figure [] [(''data'', PList [p1]), (''layout'', layout)]) (\<lambda>fig.
     call_fn (r_none L) 301 Iplot [fig] [])))"

text \<open>Lines 333 to 342: average precision against index size.\<close>

definition plot_precision :: "lib \<Rightarrow> nn_vars \<Rightarrow> unit prog" where
  "plot_precision L w =
     bnd (construct L 333 Scatter []
            [(''x'', PInts (n_samples_values w)), (''y'', PVec (accuracies w)),
             (''error_y'', PDict [(''visible'', PBool True),
                                  (''arrayminus'', PVec (std_accuracies w))]),
             (''line'', PDict [(''color'', PStr ''cyan''), (''width'', PInt 2)])]) (\<lambda>p1.
     bnd (construct L 338 Layout []
            [(''title'', PStr ''Precision of 10-nearest-neighbors queries with index size''),
             (''xaxis'', PDict [(''title'', PStr ''n_samples'')]),
             (''yaxis'', PDict [(''title'', PStr ''precision@10''),
                                (''range'', PList [PInt 0, PNum 1.1])])]) (\<lambda>layout.
     bnd (construct L 341 Figure [] [(''data'', PList [p1]), (''layout'', layout)]) (\<lambda>fig.
     call_fn (r_none L) 342 Iplot [fig] [])))"

definition nn_publish :: "lib \<Rightarrow> unit prog" where
  "nn_publish L =
     publish_cell L 416
       [PStr ''Scalability of Approximate Nearest Neighbors.ipynb'',
        PStr ''scikit-learn/plot-approximate-nearest-neighbors-scalability/'',
        PStr ''Scalability of Approximate Nearest Neighbors | plotly'',
        PStr '' '']
       [(''title'', PStr ''Scalability of Approximate Nearest Neighbors | plotly''),
        (''name'', PStr ''Scalability of Approximate Nearest Neighbors''),
        (''has_thumbnail'', PStr ''true''), (''thumbnail'', PStr ''thumbnail/scalability.jpg''),
        (''language'', PStr ''scikit-learn''), (''page_type'', PStr ''example_index''),
        (''display_as'', PStr ''nearest_neighbors''), (''order'', PInt 8),
        (''ipynb'', PStr ''~Diksha_Gabha/3487'')]"

text \<open>
  The notebook: \<open>print(__doc__)\<close> of line 84, whose text is the one the notebook
  recorded, then its code cells in order.
\<close>

definition nn_notebook :: "lib \<Rightarrow> nn_vars prog" where
  "nn_notebook L =
     bnd (call_fn (r_none L) 84 Print
            [PStr ''Automatically created module for IPython interactive environment''] [])
       (\<lambda>_.
     bnd (nn_setup L) (\<lambda>w.
     bnd (benchmark L w) (\<lambda>w.
     bnd (plot_query_time L w) (\<lambda>_.
     bnd (plot_speedup L w) (\<lambda>_.
     bnd (plot_precision L w) (\<lambda>_.
     bnd (nn_publish L) (\<lambda>_.
     ret w)))))))"

section \<open>Reading events\<close>

text \<open>
  A keyword argument of a call by its name, the number of rows of an array argument
  (for a shape tuple \<open>(n,)\<close>, the \<open>n\<close> it asks for), and an integer argument.
\<close>

definition kwarg :: "event \<Rightarrow> string \<Rightarrow> pv option" where
  "kwarg ev name = map_of (kwargs ev) name"

definition rows :: "pv \<Rightarrow> nat" where
  "rows v =
     (case v of
        PVec a \<Rightarrow> length a
      | PMat m \<Rightarrow> length m
      | PInts a \<Rightarrow> length a
      | PTuple s \<Rightarrow> (case s of [PInt n] \<Rightarrow> nat n | _ \<Rightarrow> 0)
      | _ \<Rightarrow> 0)"

definition int_of :: "pv option \<Rightarrow> int" where
  "int_of v = (case v of Some (PInt n) \<Rightarrow> n | _ \<Rightarrow> 0)"

text \<open>
  A library in which no call fails, for running the notebooks on: the clock counts
  the calls made so far, \<open>randint\<close> returns its lower bound, the random draws and the
  predictions are arrays of zeros (standard deviations of ones) of the length their
  last argument asks for, \<open>kneighbors\<close> returns the ten neighbours 0 to 9 and
  \<open>make_blobs\<close> a zero matrix of \<open>n_samples\<close> rows and \<open>n_features\<close> columns.
\<close>

definition calm :: lib where
  "calm = \<lparr>
     r_none = (\<lambda>h ev. Inr ()),
     r_real = (\<lambda>h ev. Inr (real (length h))),
     r_int = (\<lambda>h ev. Inr (int_of (Some (hd (args ev))))),
     r_vec = (\<lambda>h ev. Inr (replicate (rows (last (args ev))) 0)),
     r_vecs = (\<lambda>h ev. Inr (replicate (rows (last (args ev))) 0,
                            replicate (rows (last (args ev))) 1)),
     r_imat = (\<lambda>h ev. Inr [[0, 1, 2, 3, 4, 5, 6, 7, 8, 9]]),
     r_blobs = (\<lambda>h ev. Inr
        (replicate (nat (int_of (kwarg ev ''n_samples'')))
           (replicate (nat (int_of (kwarg ev ''n_features''))) 0),
         replicate (nat (int_of (kwarg ev ''n_samples''))) 0))\<rparr>"

text \<open>Running a notebook: it starts with no call made.\<close>

definition trace :: "'a prog \<Rightarrow> event list" where
  "trace m = fst (m [])"

definition outcome :: "'a prog \<Rightarrow> error + 'a" where
  "outcome m = snd (m [])"

section \<open>Traces\<close>

text \<open>
  The call site and function of an event, and the sequences of them the two notebooks
  go through when no call fails: the calls of the source in the order of execution.
\<close>

definition tag :: "event \<Rightarrow> nat \<times> api" where
  "tag ev = (site ev, api ev)"

definition publish_skeleton :: "nat \<Rightarrow> (nat \<times> api) list" where
  "publish_skeleton line0 =
     [(line0, HTML), (line0, Display), (line0 + 1, HTML), (line0 + 1, Display),
      (line0 + 3, PipInstall), (line0 + 5, Publish)]"

definition gp_skeleton :: "(nat \<times> api) list" where
  "gp_skeleton =
     [(104, NpRandomSeed),
      (145, ConstantKernel), (145, RBF), (145, KernelProduct),
      (146, GaussianProcessRegressor), (149, Fit), (152, Predict),
      (170, Scatter), (175, Scatter), (180, Scatter), (186, Scatter),
      (195, Layout), (198, Figure), (223, Iplot),
      (246, NpRandomRandom), (247, NpRandomNormal),
      (251, GaussianProcessRegressor), (255, Fit), (258, Predict),
      (276, Scatter), (281, Scatter), (287, Scatter), (293, Scatter),
      (302, Layout), (305, Figure), (330, Iplot)]
     @ publish_skeleton 401"

definition query_skeleton :: "(nat \<times> api) list" where
  "query_skeleton =
     [(182, Randint), (184, Time), (185, Kneighbors), (186, Time),
      (188, Time), (189, Kneighbors), (190, Time)]"

definition step_skeleton :: "(nat \<times> api) list" where
  "step_skeleton =
     [(172, LSHForest), (173, Fit), (174, NearestNeighbors), (175, Fit)]
     @ concat (replicate n_iter query_skeleton)
     @ [(200, Print)]"

definition nn_skeleton :: "(nat \<times> api) list" where
  "nn_skeleton =
     [(84, Print), (123, NpRandomState), (124, MakeBlobs)]
     @ concat (replicate n_steps step_skeleton)
     @ [(243, Scatter), (250, Scatter), (254, Layout), (258, Figure), (259, Iplot),
        (291, Scatter), (297, Layout), (300, Figure), (301, Iplot),
        (333, Scatter), (338, Layout), (341, Figure), (342, Iplot)]
     @ publish_skeleton 416"

text \<open>
  \<open>emits P m\<close>: every event of \<open>m\<close> satisfies \<open>P\<close>. \<open>follows sk m\<close>: the
  events of \<open>m\<close> go through \<open>sk\<close>, to its end when \<open>m\<close> returns and along a
  prefix of it when \<open>m\<close> raises.
\<close>

definition emits :: "(event \<Rightarrow> bool) \<Rightarrow> 'a prog \<Rightarrow> bool" where
  "emits P m \<longleftrightarrow> (\<forall>h. list_all P (fst (m h)))"

definition follows :: "(nat \<times> api) list \<Rightarrow> 'a prog \<Rightarrow> bool" where
  "follows sk m \<longleftrightarrow>
     (\<forall>h. case m h of
            (t, Inr v) \<Rightarrow> map tag t = sk
          | (t, Inl e) \<Rightarrow> prefix (map tag t) sk)"

text \<open>
  The error a call raises, if it does: the response of the library for the type of
  result of the function called.
\<close>

definition err_of :: "error + 'a \<Rightarrow> error option" where
  "err_of r = (case r of Inl e \<Rightarrow> Some e | Inr v \<Rightarrow> None)"

definition raised :: "lib \<Rightarrow> hist \<Rightarrow> event \<Rightarrow> error option" where
  "raised L h ev =
     (case api ev of
        Time \<Rightarrow> err_of (r_real L h ev)
      | Randint \<Rightarrow> err_of (r_int L h ev)
      | NpRandomRandom \<Rightarrow> err_of (r_vec L h ev)
      | NpRandomNormal \<Rightarrow> err_of (r_vec L h ev)
      | Predict \<Rightarrow> err_of (r_vecs L h ev)
      | Kneighbors \<Rightarrow> err_of (r_imat L h ev)
      | MakeBlobs \<Rightarrow> err_of (r_blobs L h ev)
      | _ \<Rightarrow> err_of (r_none L h ev))"

text \<open>
  \<open>faithful L m\<close>: when a call of \<open>m\<close> raises, it is the last call \<open>m\<close> makes and
  \<open>m\<close> ends with the error raised.
\<close>

definition faithful :: "lib \<Rightarrow> 'a prog \<Rightarrow> bool" where
  "faithful L m \<longleftrightarrow>
     (\<forall>h. case m h of
            (t, r) \<Rightarrow> \<forall>i<length t. \<forall>e. raised L (h @ take i t) (t ! i) = Some e
                        \<longrightarrow> Suc i = length t \<and> r = Inl e)"

section \<open>Libraries that behave as documented\<close>

text \<open>
  \<open>reliable L\<close>: no call raises. The shapes the libraries document:
  \<open>np.random.random(shape)\<close> returns an array of that shape and
  \<open>np.random.normal(0, dy)\<close> one of the shape of \<open>dy\<close>; \<open>predict(x,
  return_std=True)\<close> returns one mean and one standard deviation for each row of
  \<open>x\<close>; \<open>randint(low, high)\<close> returns an integer from \<open>low\<close> up to but not
  including \<open>high\<close>; \<open>make_blobs\<close> returns \<open>n_samples\<close> rows.
\<close>

definition reliable :: "lib \<Rightarrow> bool" where
  "reliable L \<longleftrightarrow>
     (\<forall>h ev. \<not> isl (r_none L h ev) \<and> \<not> isl (r_real L h ev) \<and> \<not> isl (r_int L h ev) \<and>
             \<not> isl (r_vec L h ev) \<and> \<not> isl (r_vecs L h ev) \<and> \<not> isl (r_imat L h ev) \<and>
             \<not> isl (r_blobs L h ev))"

definition shapes_random :: "lib \<Rightarrow> bool" where
  "shapes_random L \<longleftrightarrow>
     (\<forall>h ev v. r_vec L h ev = Inr v \<longrightarrow> length v = rows (last (args ev)))"

definition shapes_predict :: "lib \<Rightarrow> bool" where
  "shapes_predict L \<longleftrightarrow>
     (\<forall>h ev a b. r_vecs L h ev = Inr (a, b) \<longrightarrow>
        length a = rows (last (args ev)) \<and> length b = rows (last (args ev)))"

definition range_randint :: "lib \<Rightarrow> bool" where
  "range_randint L \<longleftrightarrow>
     (\<forall>h ev r. r_int L h ev = Inr r \<longrightarrow>
        int_of (Some (hd (args ev))) < int_of (Some (last (args ev))) \<longrightarrow>
        int_of (Some (hd (args ev))) \<le> r \<and> r < int_of (Some (last (args ev))))"

definition shapes_blobs :: "lib \<Rightarrow> bool" where
  "shapes_blobs L \<longleftrightarrow>
     (\<forall>h ev m l. r_blobs L h ev = Inr (m, l) \<longrightarrow>
        length m = nat (int_of (kwarg ev ''n_samples'')))"

definition documented :: "lib \<Rightarrow> bool" where
  "documented L \<longleftrightarrow>
     shapes_random L \<and> shapes_predict L \<and> range_randint L \<and> shapes_blobs L"

text \<open>\<open>yields m Q\<close>: \<open>m\<close> returns, whatever was called before, a value that satisfies \<open>Q\<close>.\<close>

definition yields :: "'a prog \<Rightarrow> ('a \<Rightarrow> bool) \<Rightarrow> bool" where
  "yields m Q \<longleftrightarrow> (\<forall>h. case snd (m h) of Inl e \<Rightarrow> False | Inr v \<Rightarrow> Q v)"

section \<open>Call signatures, timing and pipeline stages\<close>

text \<open>
  \<open>fit(X, y)\<close> and \<open>fit(X)\<close>; the signatures as the specification lists them; and
  the signatures of the nearest neighbours notebook, whose estimators are fitted on
  the samples alone.
\<close>

definition fit_X_y :: "event \<Rightarrow> bool" where
  "fit_X_y ev \<longleftrightarrow> (case args ev of [PMat X, PVec y] \<Rightarrow> True | _ \<Rightarrow> False)"

definition fit_X_only :: "event \<Rightarrow> bool" where
  "fit_X_only ev \<longleftrightarrow> (case args ev of [PMat X] \<Rightarrow> True | _ \<Rightarrow> False)"

definition one_array :: "event \<Rightarrow> bool" where
  "one_array ev \<longleftrightarrow> (case args ev of [PMat x] \<Rightarrow> True | _ \<Rightarrow> False)"

definition stated_signature :: "event \<Rightarrow> bool" where
  "stated_signature ev \<longleftrightarrow>
     (case api ev of
        Predict \<Rightarrow> one_array ev \<and> kwargs ev = [(''return_std'', PBool True)]
      | Kneighbors \<Rightarrow> one_array ev \<and> kwargs ev = [(''return_distance'', PBool False)]
      | Fit \<Rightarrow> fit_X_y ev
      | _ \<Rightarrow> True)"

definition unsupervised_signature :: "event \<Rightarrow> bool" where
  "unsupervised_signature ev \<longleftrightarrow>
     (case api ev of
        Predict \<Rightarrow> one_array ev \<and> kwargs ev = [(''return_std'', PBool True)]
      | Kneighbors \<Rightarrow> one_array ev \<and> kwargs ev = [(''return_distance'', PBool False)]
      | Fit \<Rightarrow> fit_X_only ev
      | _ \<Rightarrow> True)"

text \<open>
  \<open>timed prev as\<close>: in the sequence of calls \<open>as\<close>, which follows the call
  \<open>prev\<close>, every \<open>kneighbors\<close> call stands between two readings of the clock.
\<close>

fun timed :: "api \<Rightarrow> api list \<Rightarrow> bool" where
  "timed prev [] = (prev \<noteq> Kneighbors)"
| "timed prev (a # rest) =
     ((if prev = Kneighbors then a = Time else True) \<and>
      (if a = Kneighbors then prev = Time else True) \<and>
      timed a rest)"

text \<open>
  The four steps of the pipeline of the specification: generating the dataset (0),
  building, fitting and querying an estimator (1), building the chart (2) and the
  remote plotting call (3). The clock, the choice of a query, printing and publishing
  are none of them.
\<close>

fun stage :: "api \<Rightarrow> nat option" where
  "stage NpRandomSeed = Some 0"
| "stage NpRandomRandom = Some 0"
| "stage NpRandomNormal = Some 0"
| "stage NpRandomState = Some 0"
| "stage MakeBlobs = Some 0"
| "stage Randint = None"
| "stage ConstantKernel = Some 1"
| "stage RBF = Some 1"
| "stage KernelProduct = Some 1"
| "stage GaussianProcessRegressor = Some 1"
| "stage LSHForest = Some 1"
| "stage NearestNeighbors = Some 1"
| "stage Fit = Some 1"
| "stage Predict = Some 1"
| "stage Kneighbors = Some 1"
| "stage Time = None"
| "stage Scatter = Some 2"
| "stage Layout = Some 2"
| "stage Figure = Some 2"
| "stage Iplot = Some 3"
| "stage Print = None"
| "stage HTML = None"
| "stage Display = None"
| "stage PipInstall = None"
| "stage Publish = None"

text \<open>The stages of the calls of the source lines \<open>lo\<close> to \<open>hi\<close>, in order.\<close>

definition stages :: "nat \<Rightarrow> nat \<Rightarrow> (nat \<times> api) list \<Rightarrow> nat list" where
  "stages lo hi sk =
     List.map_filter (\<lambda>s. stage (snd s)) (filter (\<lambda>s. lo \<le> fst s \<and> fst s \<le> hi) sk)"

text \<open>
  The shape of the confidence trace \<open>p4\<close>, built at lines 186 and 293: an \<open>x\<close>
  sequence of 2000 values and a \<open>y\<close> sequence of 1000.
\<close>

definition confidence_shape :: "event \<Rightarrow> bool" where
  "confidence_shape ev \<longleftrightarrow>
     (if site ev = 186 \<or> site ev = 293
      then (case (kwarg ev ''x'', kwarg ev ''y'') of
              (Some (PVec a), Some (PVec b)) \<Rightarrow> length a = 2000 \<and> length b = 1000
            | _ \<Rightarrow> False)
      else True)"

text \<open>
  What the trace holds for the variables \<open>g\<close>: the first column of \<open>x\<close> followed by
  its reverse, against the lower bound \<open>y_pred - 1.9600 * sigma\<close> alone.
\<close>

definition lower_band_only :: "gp_vars \<Rightarrow> event \<Rightarrow> bool" where
  "lower_band_only g ev \<longleftrightarrow>
     kwarg ev ''x'' = Some (PVec (map (\<lambda>r. r ! 0) (v_x g) @ rev (map (\<lambda>r. r ! 0) (v_x g)))) \<and>
     (if length (v_y_pred g) = length (v_sigma g)
      then kwarg ev ''y'' = Some (PVec (map2 (\<lambda>p s. p - 1.9600 * s) (v_y_pred g) (v_sigma g)))
      else True)"

section \<open>Parameters and data\<close>

text \<open>
  What a call passes besides data: the value with every array in it blanked, for the
  calls that build, fit and query estimators and for the calls that build and plot
  charts.
\<close>

primrec erase :: "pv \<Rightarrow> pv" where
  "erase PNone = PNone"
| "erase (PBool b) = PBool b"
| "erase (PInt n) = PInt n"
| "erase (PNum v) = PNum v"
| "erase (PStr s) = PStr s"
| "erase (PVec v) = PNone"
| "erase (PMat m) = PNone"
| "erase (PInts v) = PNone"
| "erase (PTuple vs) = PTuple (map erase vs)"
| "erase (PList vs) = PList (map erase vs)"
| "erase (PDict kws) = PDict (map (map_prod id erase) kws)"
| "erase (PObj a vs kws) = PObj a (map erase vs) (map (map_prod id erase) kws)"

definition relevant :: "api \<Rightarrow> bool" where
  "relevant a \<longleftrightarrow>
     a \<in> {ConstantKernel, RBF, KernelProduct, GaussianProcessRegressor, LSHForest,
          NearestNeighbors, Fit, Predict, Kneighbors, Scatter, Layout, Figure, Iplot}"

definition view :: "event \<Rightarrow> (nat \<times> api \<times> pv \<times> pv list \<times> (string \<times> pv) list) option" where
  "view ev =
     (if relevant (api ev)
      then Some (site ev, api ev, erase (receiver ev), map erase (args ev),
                 map (map_prod id erase) (kwargs ev))
      else None)"

definition views :: "event list \<Rightarrow> (nat \<times> api \<times> pv \<times> pv list \<times> (string \<times> pv) list) list" where
  "views t = List.map_filter view t"

text \<open>
  \<open>follows_by tg sk m\<close>: the events of \<open>m\<close>, seen through \<open>tg\<close>, go through \<open>sk\<close>.
\<close>

definition follows_by :: "(event \<Rightarrow> 'b option) \<Rightarrow> 'b list \<Rightarrow> 'a prog \<Rightarrow> bool" where
  "follows_by tg sk m \<longleftrightarrow>
     (\<forall>h. case m h of
            (t, Inr v) \<Rightarrow> List.map_filter tg t = sk
          | (t, Inl e) \<Rightarrow> prefix (List.map_filter tg t) sk)"

text \<open>
  The \<open>alpha\<close> arguments of the calls of line 251, and a library in which
  \<open>np.random.random\<close> draws the constant \<open>c\<close> and \<open>np.random.normal\<close> zero, with
  the \<open>alpha\<close> the noisy case then computes.
\<close>

definition alphas :: "event list \<Rightarrow> pv option list" where
  "alphas t = map (\<lambda>ev. kwarg ev ''alpha'') (filter (\<lambda>ev. site ev = 251) t)"

definition drawing :: "real \<Rightarrow> lib" where
  "drawing c = calm\<lparr>r_vec := (\<lambda>h ev. Inr (replicate (rows (last (args ev)))
                                    (if api ev = NpRandomRandom then c else 0)))\<rparr>"

definition alpha_drawing :: "real \<Rightarrow> vec" where
  "alpha_drawing c =
     (let y0 = ravel (f (np_T (atleast_2d (linspace 0.1 9.9 20))));
          dy = scalar_add 0.5 (scalar_mul 1.0 (replicate 20 c));
          y = map2 (+) y0 (replicate 20 0)
      in power_scalar (map2 (/) dy y) 2)"

section \<open>Arrays in the store\<close>

text \<open>
  For what a function does to its arguments, arrays are objects in a store. The store
  holds the buffers of numpy arrays and the Python lists; an array is a view of a
  buffer with a shape, so that two arrays on one buffer change together. This is
  what \<open>X = np.atleast_2d(X).T\<close> and \<open>f(X).ravel()\<close> build: views, not copies.
  \<open>fresh\<close> is the next address not in use.
\<close>

datatype obj = Buffer vec | PyList vec

record store =
  heap :: "nat \<rightharpoonup> obj"
  fresh :: nat

datatype shape = Dim1 nat | Dim2 nat nat

record ndarray =
  buf :: nat
  shp :: shape

definition alloc :: "obj \<Rightarrow> store \<Rightarrow> nat \<times> store" where
  "alloc ob s = (fresh s, s\<lparr>heap := (heap s)(fresh s \<mapsto> ob), fresh := Suc (fresh s)\<rparr>)"

definition read_buffer :: "store \<Rightarrow> nat \<Rightarrow> error + vec" where
  "read_buffer s a =
     (case heap s a of Some (Buffer v) \<Rightarrow> Inr v | _ \<Rightarrow> Inl (LibraryError ''not an array''))"

text \<open>The rows of a two-dimensional view with \<open>r\<close> rows and \<open>c\<close> columns.\<close>

definition matrix_of :: "nat \<Rightarrow> nat \<Rightarrow> vec \<Rightarrow> mat" where
  "matrix_of r c v = map (\<lambda>i. take c (drop (i * c) v)) [0..<r]"

text \<open>
  \<open>f\<close> in the store: \<open>np.sin(x)\<close> is a new array, and so is the product
  \<open>x * np.sin(x)\<close>, of the shape of \<open>x\<close>.
\<close>

definition f_store :: "ndarray \<Rightarrow> store \<Rightarrow> error + ndarray \<times> store" where
  "f_store x s =
     ebind (read_buffer s (buf x)) (\<lambda>v.
     let (sines, s1) = alloc (Buffer (map sin v)) s in
     ebind (read_buffer s1 sines) (\<lambda>w.
     let (product, s2) = alloc (Buffer (map2 (*) v w)) s1 in
     Inr (\<lparr>buf = product, shp = shp x\<rparr>, s2)))"

text \<open>
  \<open>data_to_plotly\<close> in the store: \<open>k = []\<close> is a new list, \<open>k.append\<close> changes
  it in place, \<open>x[i][0]\<close> only reads. \<open>len(x)\<close> is the first dimension; indexing an
  element of a one-dimensional array, or a row without columns, raises IndexError.
\<close>

definition first_dim :: "shape \<Rightarrow> nat" where
  "first_dim sh = (case sh of Dim1 n \<Rightarrow> n | Dim2 r c \<Rightarrow> r)"

definition item_0 :: "shape \<Rightarrow> vec \<Rightarrow> nat \<Rightarrow> error + real" where
  "item_0 sh v i =
     (case sh of
        Dim1 n \<Rightarrow> Inl IndexError
      | Dim2 r c \<Rightarrow> if i < r \<and> 0 < c \<and> i * c < length v then Inr (v ! (i * c)) else Inl IndexError)"

definition append_store :: "nat \<Rightarrow> real \<Rightarrow> store \<Rightarrow> error + store" where
  "append_store k e s =
     (case heap s k of
        Some (PyList ks) \<Rightarrow> Inr (s\<lparr>heap := (heap s)(k \<mapsto> PyList (ks @ [e]))\<rparr>)
      | _ \<Rightarrow> Inl (LibraryError ''not a list''))"

fun data_to_plotly_store_loop :: "ndarray \<Rightarrow> nat \<Rightarrow> nat list \<Rightarrow> store \<Rightarrow> error + store" where
  "data_to_plotly_store_loop x k [] s = Inr s"
| "data_to_plotly_store_loop x k (i # rest) s =
     ebind (read_buffer s (buf x)) (\<lambda>v.
     ebind (item_0 (shp x) v i) (\<lambda>e.
     ebind (append_store k e s) (\<lambda>s'.
     data_to_plotly_store_loop x k rest s')))"

definition data_to_plotly_store :: "ndarray \<Rightarrow> store \<Rightarrow> error + nat \<times> store" where
  "data_to_plotly_store x s =
     (let (k, s0) = alloc (PyList []) s in
      ebind (data_to_plotly_store_loop x k [0..<first_dim (shp x)] s0) (\<lambda>s'.
      Inr (k, s')))"

text \<open>
  Lines 241 to 248 in the store, for the draws \<open>u\<close> of \<open>np.random.random\<close> and
  \<open>nz\<close> of \<open>np.random.normal\<close>: \<open>X\<close> is a view of the buffer of the \<open>linspace\<close>,
  \<open>y\<close> a view of the buffer \<open>f(X)\<close> returned, and \<open>y += noise\<close> writes into that
  buffer.
\<close>

record noisy_data =
  nd_X :: ndarray
  nd_y :: ndarray
  nd_dy :: ndarray
  nd_noise :: ndarray

definition iadd_store :: "ndarray \<Rightarrow> ndarray \<Rightarrow> store \<Rightarrow> error + store" where
  "iadd_store y n s =
     ebind (read_buffer s (buf y)) (\<lambda>v.
     ebind (read_buffer s (buf n)) (\<lambda>w.
     ebind (iadd v w) (\<lambda>r.
     Inr (s\<lparr>heap := (heap s)(buf y \<mapsto> Buffer r)\<rparr>))))"

definition noisy_data_store :: "vec \<Rightarrow> vec \<Rightarrow> store \<Rightarrow> error + noisy_data \<times> store" where
  "noisy_data_store u nz s =
     (let (b, s1) = alloc (Buffer (linspace 0.1 9.9 20)) s;
          X = \<lparr>buf = b, shp = Dim2 20 1\<rparr>
      in
      ebind (f_store X s1) (\<lambda>(fX, s2).
      let y = \<lparr>buf = buf fX, shp = Dim1 20\<rparr>;
          (b_u, s3) = alloc (Buffer u) s2;
          (b_m, s4) = alloc (Buffer (scalar_mul 1.0 u)) s3;
          (b_dy, s5) = alloc (Buffer (scalar_add 0.5 (scalar_mul 1.0 u))) s4;
          dy = \<lparr>buf = b_dy, shp = Dim1 (length u)\<rparr>;
          (b_n, s6) = alloc (Buffer nz) s5;
          noise = \<lparr>buf = b_n, shp = Dim1 (length nz)\<rparr>
      in
      ebind (iadd_store y noise s6) (\<lambda>s7.
      Inr (\<lparr>nd_X = X, nd_y = y, nd_dy = dy, nd_noise = noise\<rparr>, s7))))"

text \<open>
  \<open>kept s s'\<close>: every object of \<open>s\<close> is in \<open>s'\<close> as it was. \<open>holds_data v\<close>: the
  value holds an array or a chart object. The calls that write to local storage are the
  package installation and the publication of the notebook.
\<close>

definition kept :: "store \<Rightarrow> store \<Rightarrow> bool" where
  "kept s s' \<longleftrightarrow> (\<forall>a. a < fresh s \<longrightarrow> heap s' a = heap s a) \<and> fresh s \<le> fresh s'"

primrec holds_data :: "pv \<Rightarrow> bool" where
  "holds_data PNone = False"
| "holds_data (PBool b) = False"
| "holds_data (PInt n) = False"
| "holds_data (PNum v) = False"
| "holds_data (PStr s) = False"
| "holds_data (PVec v) = True"
| "holds_data (PMat m) = True"
| "holds_data (PInts v) = True"
| "holds_data (PTuple vs) = list_ex id (map holds_data vs)"
| "holds_data (PList vs) = list_ex id (map holds_data vs)"
| "holds_data (PDict kws) = list_ex snd (map (map_prod id holds_data) kws)"
| "holds_data (PObj a vs kws) = (a \<in> {Scatter, Layout, Figure} \<or> list_ex id (map holds_data vs) \<or>
      list_ex snd (map (map_prod id holds_data) kws))"

definition writes_locally :: "api \<Rightarrow> bool" where
  "writes_locally a \<longleftrightarrow> a \<in> {PipInstall, Publish}"

definition stores_data :: "event \<Rightarrow> bool" where
  "stores_data ev \<longleftrightarrow>
     writes_locally (api ev) \<and>
     (holds_data (receiver ev) \<or> list_ex holds_data (args ev) \<or>
      list_ex (\<lambda>kw. holds_data (snd kw)) (kwargs ev))"

text \<open>A library in which every \<open>fit\<close> raises, and nothing else does.\<close>

definition unfit :: lib where
  "unfit = calm\<lparr>r_none := (\<lambda>h ev. if api ev = Fit then Inl (LibraryError ''fit'') else Inr ())\<rparr>"

text \<open>The shapes the plotting cells of the Gaussian Process notebook rely on.\<close>

definition gp_shape :: "gp_vars \<Rightarrow> bool" where
  "gp_shape g \<longleftrightarrow>
     length (v_x g) = 1000 \<and> (\<forall>r\<in>set (v_x g). r \<noteq> []) \<and> (\<forall>r\<in>set (v_X g). r \<noteq> []) \<and>
     length (v_y_pred g) = 1000 \<and> length (v_sigma g) = 1000"

text \<open>The seven metric lists of the benchmark, and their growth by \<open>k\<close> entries each.\<close>

definition metric_lists :: "nn_vars \<Rightarrow> vec list" where
  "metric_lists w =
     [average_times_exact w, average_times_approx w, std_times_approx w,
      accuracies w, std_accuracies w, average_speedups w, std_speedups w]"

definition grown :: "nat \<Rightarrow> nn_vars \<Rightarrow> nn_vars \<Rightarrow> bool" where
  "grown k w w' \<longleftrightarrow>
     n_samples_values w' = n_samples_values w \<and>
     (\<exists>new. length new = 7 \<and> list_all (\<lambda>a. length a = k) new \<and>
            metric_lists w' = map2 (@) (metric_lists w) new)"

section \<open>Properties of data_to_plotly\<close>

lemma ebind_simps [simp]:
  "ebind (Inl e) k = Inl e"
  "ebind (Inr v) k = k v"
  by (simp_all add: ebind_def)

lemma data_to_plotly_loop_ok:
  assumes "\<forall>i\<in>set idx. i < length x \<and> x ! i \<noteq> []"
  shows "data_to_plotly_loop x idx k = Inr (k @ map (\<lambda>i. x ! i ! 0) idx)"
  using assms
proof (induction idx arbitrary: k)
  case Nil
  then show ?case by simp
next
  case (Cons i rest)
  then have "i < length x" and "x ! i \<noteq> []" by simp_all
  then have "getitem x i = Inr (x ! i)" and "getitem (x ! i) 0 = Inr (x ! i ! 0)"
    by (simp_all add: getitem_def)
  with Cons show ?case by simp
qed

lemma data_to_plotly_loop_fail:
  assumes "\<forall>i\<in>set idx. i < length x" and "\<exists>i\<in>set idx. x ! i = []"
  shows "data_to_plotly_loop x idx k = Inl IndexError"
  using assms
proof (induction idx arbitrary: k)
  case Nil
  then show ?case by simp
next
  case (Cons i rest)
  then have lt: "i < length x" by simp
  show ?case
  proof (cases "x ! i = []")
    case True
    with lt show ?thesis by (simp add: getitem_def)
  next
    case False
    with Cons.prems have "\<exists>j\<in>set rest. x ! j = []" by auto
    moreover from Cons.prems have "\<forall>j\<in>set rest. j < length x" by simp
    ultimately have "data_to_plotly_loop x rest (k @ [x ! i ! 0]) = Inl IndexError"
      by (rule Cons.IH[rotated])
    with lt False show ?thesis by (simp add: getitem_def)
  qed
qed

lemma data_to_plotly_ok:
  assumes "\<forall>r\<in>set x. r \<noteq> []"
  shows "data_to_plotly x = Inr (map (\<lambda>r. r ! 0) x)"
proof -
  have "\<forall>i\<in>set [0..<length x]. i < length x \<and> x ! i \<noteq> []"
    using assms by simp
  then have "data_to_plotly x = Inr (map (\<lambda>i. x ! i ! 0) [0..<length x])"
    unfolding data_to_plotly_def by (simp add: data_to_plotly_loop_ok)
  also have "map (\<lambda>i. x ! i ! 0) [0..<length x] = map (\<lambda>r. r ! 0) x"
    by (rule nth_equalityI) simp_all
  finally show ?thesis .
qed

lemma data_to_plotly_fail:
  assumes "\<exists>r\<in>set x. r = []"
  shows "data_to_plotly x = Inl IndexError"
proof -
  from assms obtain i where "i < length x" and "x ! i = []"
    by (auto simp: in_set_conv_nth)
  then have "\<exists>i\<in>set [0..<length x]. x ! i = []" by auto
  then show ?thesis
    unfolding data_to_plotly_def by (intro data_to_plotly_loop_fail) simp_all
qed

text \<open>
  C8. When every row of the two-dimensional input \<open>x\<close> is non-empty,
  \<open>data_to_plotly x\<close> returns a list of length \<open>len(x)\<close> whose \<open>i\<close>-th element is
  \<open>x[i][0]\<close>, the first column of \<open>x\<close> as a flat list; when some row of \<open>x\<close> is
  empty, the indexing \<open>x[i][0]\<close> fails and the call raises IndexError.
\<close>

theorem data_to_plotly_first_column:
  "((\<forall>r\<in>set x. r \<noteq> []) \<longrightarrow>
      (\<exists>k. data_to_plotly x = Inr k \<and> length k = length x \<and>
           (\<forall>i<length x. k ! i = x ! i ! 0))) \<and>
   ((\<exists>r\<in>set x. r = []) \<longrightarrow> data_to_plotly x = Inl IndexError)"
  by (simp add: data_to_plotly_ok data_to_plotly_fail)

theorem data_to_plotly_first_column_witness:
  "(\<exists>k. data_to_plotly [[1, 2], [3, 4], [5, 6 :: int]] = Inr k \<and> length k = 3 \<and>
        k ! 0 = 1 \<and> k ! 1 = 3 \<and> k ! 2 = 5) \<and>
   data_to_plotly [[1, 2], [], [5, 6 :: int]] = Inl IndexError"
proof -
  let ?x = "[[1, 2], [3, 4], [5, 6 :: int]]"
  let ?z = "[[1, 2], [], [5, 6 :: int]]"
  have full: "\<forall>r\<in>set ?x. r \<noteq> []" by simp
  have hole: "\<exists>r\<in>set ?z. r = []" by simp
  from data_to_plotly_first_column [of ?x] full
  obtain k where k: "data_to_plotly ?x = Inr k" "length k = length ?x"
    "\<forall>i<length ?x. k ! i = ?x ! i ! 0" by blast
  from k(3) have "k ! 0 = 1" "k ! 1 = 3" "k ! 2 = 5" by simp_all
  moreover from data_to_plotly_first_column [of ?z] hole
  have "data_to_plotly ?z = Inl IndexError" by blast
  ultimately show ?thesis using k(1,2) by simp
qed

section \<open>The values of n_samples\<close>

lemma floor_powr_fifth:
  fixes n :: nat and k :: int
  assumes "0 \<le> k" "(of_int k :: real) ^ 5 \<le> 10 ^ n" "(10::real) ^ n < (of_int k + 1) ^ 5"
  shows "\<lfloor>(10::real) powr (real n / 5)\<rfloor> = k"
proof -
  let ?v = "(10::real) powr (real n / 5)"
  have pos: "0 < ?v" by simp
  have "?v ^ 5 = 10 powr (real n / 5 * 5)"
    by (simp add: powr_powr flip: powr_realpow[OF pos])
  also have "\<dots> = 10 ^ n" by (simp add: powr_realpow)
  finally have v5: "?v ^ 5 = 10 ^ n" .
  have lo: "of_int k \<le> ?v"
    by (rule power_le_imp_le_base[of _ 4]) (use assms v5 in simp_all)
  have hi: "?v < of_int k + 1"
    by (rule power_less_imp_less_base[of _ 5]) (use assms v5 in simp_all)
  from lo hi show ?thesis by (simp add: floor_unique)
qed

lemma linspace_3_5_6: "linspace 3 5 6 = [3, 17/5, 19/5, 21/5, 23/5, 5]"
  by (simp add: linspace_def upt_rec)

lemma n_samples_values_eq:
  "astype_int (logspace (log10 (real_of_int n_samples_min)) (log10 (real_of_int n_samples_max)) n_steps)
     = [1000, 2511, 6309, 15848, 39810, 100000]"
proof -
  have a: "log10 (real_of_int n_samples_min) = 3"
  proof -
    have "log 10 ((10::real) ^ 3) = 3" by (subst log_pow_cancel) simp_all
    then show ?thesis by (simp add: log10_def n_samples_min_def)
  qed
  have b: "log10 (real_of_int n_samples_max) = 5"
  proof -
    have "log 10 ((10::real) ^ 5) = 5" by (subst log_pow_cancel) simp_all
    then show ?thesis by (simp add: log10_def n_samples_max_def)
  qed
  have f1: "\<lfloor>(10::real) powr (17 / 5)\<rfloor> = 2511"
    using floor_powr_fifth[of 2511 17] by simp
  have f2: "\<lfloor>(10::real) powr (19 / 5)\<rfloor> = 6309"
    using floor_powr_fifth[of 6309 19] by simp
  have f3: "\<lfloor>(10::real) powr (21 / 5)\<rfloor> = 15848"
    using floor_powr_fifth[of 15848 21] by simp
  have f4: "\<lfloor>(10::real) powr (23 / 5)\<rfloor> = 39810"
    using floor_powr_fifth[of 39810 23] by simp
  have f0: "\<lfloor>(10::real) powr 3\<rfloor> = 1000" by simp
  have f5: "\<lfloor>(10::real) powr 5\<rfloor> = 100000" by simp
  show ?thesis
    unfolding a b n_steps_def logspace_def linspace_3_5_6 astype_int_def
    by (simp add: f0 f1 f2 f3 f4 f5)
qed

section \<open>Running computations\<close>

lemma ret_apply: "ret v h = ([], Inr v)"
  by (simp add: ret_def)

lemma lift_apply: "lift r h = ([], r)"
  by (simp add: lift_def)

lemma extern_apply: "extern respond ev h = ([ev], respond h ev)"
  by (simp add: extern_def)

lemma call_fn_apply:
  "call_fn respond line a as kws h = ([Call line a PNone as kws], respond h (Call line a PNone as kws))"
  by (simp add: call_fn_def extern_def)

lemma call_method_apply:
  "call_method respond line obj a as kws h = ([Call line a obj as kws], respond h (Call line a obj as kws))"
  by (simp add: call_method_def extern_def)

lemmas run_simps = ret_apply lift_apply extern_apply call_fn_apply call_method_apply

lemma bnd_Inr_iff:
  "bnd m k h = (t, Inr w) \<longleftrightarrow>
     (\<exists>t1 v t2. m h = (t1, Inr v) \<and> k v (h @ t1) = (t2, Inr w) \<and> t = t1 @ t2)"
  by (auto simp: bnd_def split: prod.splits sum.splits)

lemma bnd_Inl_iff:
  "bnd m k h = (t, Inl e) \<longleftrightarrow>
     m h = (t, Inl e) \<or>
     (\<exists>t1 v t2. m h = (t1, Inr v) \<and> k v (h @ t1) = (t2, Inl e) \<and> t = t1 @ t2)"
  by (auto simp: bnd_def split: prod.splits sum.splits)

lemma construct_Inr_iff:
  "construct L line a as kws h = (t, Inr v) \<longleftrightarrow>
     r_none L h (Call line a PNone as kws) = Inr () \<and> t = [Call line a PNone as kws] \<and> v = PObj a as kws"
  by (auto simp: construct_def bnd_Inr_iff run_simps)

lemma benchmark_step_appends:
  assumes "benchmark_step L n w h = (t, Inr w')"
  shows "\<exists>a1 a2 a3 a4 a5 a6 a7.
     w' = w\<lparr>accuracies := accuracies w @ [a1],
              std_accuracies := std_accuracies w @ [a2],
              average_times_exact := average_times_exact w @ [a3],
              average_times_approx := average_times_approx w @ [a4],
              std_times_approx := std_times_approx w @ [a5],
              average_speedups := average_speedups w @ [a6],
              std_speedups := std_speedups w @ [a7]\<rparr>"
  using assms unfolding benchmark_step_def Let_def
  by (fastforce simp: bnd_Inr_iff run_simps)

lemma for_each_append:
  "for_each (xs @ ys) body s = bnd (for_each xs body s) (for_each ys body)"
proof (induction xs arbitrary: s)
  case Nil
  show ?case by (rule HOL.ext) (simp add: bnd_def run_simps split: prod.splits)
next
  case (Cons x xs)
  show ?case
    by (rule HOL.ext) (simp add: Cons bnd_def split: prod.splits sum.splits)
qed

lemma grown_zero: "grown 0 w w"
  unfolding grown_def metric_lists_def
  by (rule conjI[OF refl], rule exI[of _ "replicate 7 []"]) (simp add: numeral_eq_Suc)

lemma grown_step:
  assumes "benchmark_step L n w h = (t, Inr w')"
  shows "grown 1 w w'"
proof -
  from benchmark_step_appends[OF assms] obtain a1 a2 a3 a4 a5 a6 a7 where
    w': "w' = w\<lparr>accuracies := accuracies w @ [a1],
              std_accuracies := std_accuracies w @ [a2],
              average_times_exact := average_times_exact w @ [a3],
              average_times_approx := average_times_approx w @ [a4],
              std_times_approx := std_times_approx w @ [a5],
              average_speedups := average_speedups w @ [a6],
              std_speedups := std_speedups w @ [a7]\<rparr>" by blast
  show ?thesis
    unfolding grown_def metric_lists_def w'
    by (rule conjI, simp, rule exI[of _ "[[a3], [a4], [a5], [a1], [a2], [a6], [a7]]"]) simp
qed

lemma grown_trans:
  assumes "grown j w w'" and "grown k w' w''"
  shows "grown (j + k) w w''"
proof -
  from assms(1) obtain n1 where n1: "length n1 = 7" "list_all (\<lambda>a. length a = j) n1"
    "metric_lists w' = map2 (@) (metric_lists w) n1" and v1: "n_samples_values w' = n_samples_values w"
    unfolding grown_def by blast
  from assms(2) obtain n2 where n2: "length n2 = 7" "list_all (\<lambda>a. length a = k) n2"
    "metric_lists w'' = map2 (@) (metric_lists w') n2" and v2: "n_samples_values w'' = n_samples_values w'"
    unfolding grown_def by blast
  have len: "length (metric_lists w) = 7" by (simp add: metric_lists_def)
  have "metric_lists w'' = map2 (@) (metric_lists w) (map2 (@) n1 n2)"
    unfolding n2(3) n1(3) using len n1(1) n2(1)
    by (intro nth_equalityI) simp_all
  moreover have "list_all (\<lambda>a. length a = j + k) (map2 (@) n1 n2)"
    using n1(1,2) n2(1,2) by (auto simp: list_all_length)
  moreover have "length (map2 (@) n1 n2) = 7" using n1(1) n2(1) by simp
  ultimately show ?thesis unfolding grown_def using v1 v2 by metis
qed

lemma grown_loop:
  assumes "for_each vs (benchmark_step L) w h = (t, Inr w')"
  shows "grown (length vs) w w'"
  using assms
proof (induction vs arbitrary: w h t)
  case Nil
  then show ?case by (simp add: grown_zero run_simps)
next
  case (Cons v vs)
  from Cons.prems obtain t1 w1 t2 where
    s: "benchmark_step L v w h = (t1, Inr w1)" and
    r: "for_each vs (benchmark_step L) w1 (h @ t1) = (t2, Inr w')"
    by (auto simp: bnd_Inr_iff)
  from grown_trans[OF grown_step[OF s] Cons.IH[OF r]] show ?case by simp
qed

lemma for_each_split:
  assumes "for_each (xs @ ys) body s h = (t, Inr s')"
  shows "\<exists>t1 s1 t2. for_each xs body s h = (t1, Inr s1) \<and>
           for_each ys body s1 (h @ t1) = (t2, Inr s')"
  using assms by (auto simp: for_each_append bnd_Inr_iff)

section \<open>The events of a computation\<close>

lemma emits_ret: "emits P (ret v)"
  by (simp add: emits_def run_simps)

lemma emits_lift: "emits P (lift r)"
  by (simp add: emits_def run_simps)

lemma emits_extern: "P ev \<Longrightarrow> emits P (extern respond ev)"
  by (simp add: emits_def run_simps)

lemma emits_call_fn: "P (Call line a PNone as kws) \<Longrightarrow> emits P (call_fn respond line a as kws)"
  by (simp add: emits_def run_simps)

lemma emits_call_method: "P (Call line a obj as kws) \<Longrightarrow> emits P (call_method respond line obj a as kws)"
  by (simp add: emits_def run_simps)

lemma emits_bnd:
  assumes "emits P m" and "\<And>h t v. m h = (t, Inr v) \<Longrightarrow> emits P (k v)"
  shows "emits P (bnd m k)"
  unfolding emits_def
proof
  fix h
  obtain t r where mh: "m h = (t, r)" by (cases "m h")
  from assms(1) have t: "list_all P t" using mh by (auto simp: emits_def dest: spec[of _ h])
  show "list_all P (fst (bnd m k h))"
  proof (cases r)
    case (Inl e)
    with mh t show ?thesis by (simp add: bnd_def)
  next
    case (Inr v)
    with mh assms(2) have "list_all P (fst (k v (h @ t)))" by (auto simp: emits_def)
    with mh Inr t show ?thesis by (cases "k v (h @ t)") (simp add: bnd_def)
  qed
qed

lemma emits_construct: "P (Call line a PNone as kws) \<Longrightarrow> emits P (construct L line a as kws)"
  unfolding construct_def by (intro emits_bnd emits_call_fn emits_ret)

lemma emits_case_prod: "(\<And>a b. emits P (k a b)) \<Longrightarrow> emits P (case v of (a, b) \<Rightarrow> k a b)"
  by (cases v) simp

lemma emits_for_each:
  assumes "\<And>v s. emits P (body v s)"
  shows "emits P (for_each xs body s)"
  by (induction xs arbitrary: s) (auto intro: emits_ret emits_bnd assms)

lemmas emits_intros = emits_ret emits_lift emits_call_fn emits_call_method emits_construct
  emits_case_prod emits_for_each

lemma follows_ret: "follows [] (ret v)"
  by (simp add: follows_def run_simps)

lemma follows_lift: "follows [] (lift r)"
  by (simp add: follows_def run_simps split: sum.splits)

lemma follows_call_fn: "follows [(line, a)] (call_fn respond line a as kws)"
  by (simp add: follows_def tag_def run_simps split: sum.splits)

lemma follows_call_method: "follows [(line, a)] (call_method respond line obj a as kws)"
  by (simp add: follows_def tag_def run_simps split: sum.splits)

lemma follows_bnd:
  assumes "follows a m" and "\<And>h t v. m h = (t, Inr v) \<Longrightarrow> follows b (k v)"
  shows "follows (a @ b) (bnd m k)"
  unfolding follows_def
proof
  fix h
  obtain t r where mh: "m h = (t, r)" by (cases "m h")
  show "case bnd m k h of (t, Inr v) \<Rightarrow> map tag t = a @ b | (t, Inl e) \<Rightarrow> prefix (map tag t) (a @ b)"
  proof (cases r)
    case (Inl e)
    with mh assms(1) have "prefix (map tag t) a"
      by (auto simp: follows_def dest: spec[of _ h])
    with mh Inl show ?thesis by (simp add: bnd_def)
  next
    case (Inr v)
    with mh assms(1) have a: "map tag t = a"
      by (auto simp: follows_def dest: spec[of _ h])
    from assms(2) mh Inr have "follows b (k v)" by simp
    then have "case k v (h @ t) of (t', Inr v) \<Rightarrow> map tag t' = b | (t', Inl e) \<Rightarrow> prefix (map tag t') b"
      by (simp add: follows_def)
    with mh Inr a show ?thesis
      by (auto simp: bnd_def split: prod.splits sum.splits)
  qed
qed

lemma follows_construct: "follows [(line, a)] (construct L line a as kws)"
proof -
  have "follows ([(line, a)] @ [])
          (bnd (call_fn (r_none L) line a as kws) (\<lambda>_. ret (PObj a as kws)))"
    by (rule follows_bnd) (rule follows_call_fn, rule follows_ret)
  then show ?thesis by (simp add: construct_def)
qed

lemma follows_case_prod: "(\<And>a b. follows sk (k a b)) \<Longrightarrow> follows sk (case v of (a, b) \<Rightarrow> k a b)"
  by (cases v) simp

lemma follows_for_each:
  assumes "\<And>v s. follows b (body v s)"
  shows "follows (concat (replicate (length xs) b)) (for_each xs body s)"
proof (induction xs arbitrary: s)
  case Nil
  show ?case by (simp add: follows_ret)
next
  case (Cons x xs)
  have "follows (b @ concat (replicate (length xs) b))
          (bnd (body x s) (\<lambda>s'. for_each xs body s'))"
    by (rule follows_bnd) (rule assms, rule Cons)
  then show ?case by simp
qed

lemma follows_weaken: "follows sk' m \<Longrightarrow> sk' = sk \<Longrightarrow> follows sk m"
  by simp

lemmas follows_intros = follows_ret follows_lift follows_call_fn follows_call_method
  follows_construct follows_case_prod follows_for_each follows_bnd

section \<open>The call sequences of the notebooks\<close>

lemmas gp_cells = gp_setup_def gp_noiseless_def gp_plot_noiseless_def gp_iplot_def
  gp_noisy_def gp_plot_noisy_def gp_publish_def publish_cell_def gp_figure_def
  function_trace_def prediction_trace_def confidence_trace_def

lemma gp_follows: "follows gp_skeleton (gp_notebook L)"
  unfolding gp_notebook_def gp_cells Let_def
  apply (rule follows_weaken)
   apply (rule follows_intros)+
  apply (simp add: gp_skeleton_def publish_skeleton_def)
  done

lemma nn_setup_values:
  assumes "nn_setup L h = (t, Inr w)"
  shows "n_samples_values w = [1000, 2511, 6309, 15848, 39810, 100000]"
  using assms unfolding nn_setup_def Let_def n_samples_values_eq
  by (auto simp: bnd_Inr_iff run_simps construct_Inr_iff split: prod.splits)

lemma query_once_follows: "follows query_skeleton (query_once L w lshf nbrs i tm)"
  unfolding query_once_def Let_def
  apply (rule follows_weaken)
   apply (rule follows_intros)+
  apply (simp add: query_skeleton_def)
  done

lemma benchmark_step_follows: "follows step_skeleton (benchmark_step L n w)"
  unfolding benchmark_step_def Let_def
  apply (rule follows_weaken)
   apply (rule follows_intros query_once_follows)+
  apply (simp add: step_skeleton_def n_iter_def)
  done

lemma benchmark_follows:
  "follows (concat (replicate (length (n_samples_values w)) step_skeleton)) (benchmark L w)"
  unfolding benchmark_def by (rule follows_for_each) (rule benchmark_step_follows)

lemma benchmark_follows_setup:
  assumes "nn_setup L h = (t, Inr w)"
  shows "follows (concat (replicate n_steps step_skeleton)) (benchmark L w)"
proof -
  have "length (n_samples_values w) = n_steps"
    by (simp add: nn_setup_values[OF assms] n_steps_def)
  with benchmark_follows[of w L] show ?thesis by simp
qed

lemma nn_follows: "follows nn_skeleton (nn_notebook L)"
  unfolding nn_notebook_def
  apply (rule follows_weaken)
   apply (rule follows_bnd)
    apply (rule follows_call_fn)
   apply (rule follows_bnd)
    apply (unfold nn_setup_def Let_def)[1]
    apply (rule follows_intros)+
   apply (rule benchmark_follows_setup, assumption)
   apply (unfold plot_query_time_def plot_speedup_def plot_precision_def nn_publish_def publish_cell_def)[1]
   apply (rule follows_intros)+
  apply (simp add: nn_skeleton_def publish_skeleton_def)
  done

section \<open>Errors of external calls\<close>

lemma faithful_ret: "faithful L (ret v)"
  by (simp add: faithful_def run_simps)

lemma faithful_lift: "faithful L (lift r)"
  by (simp add: faithful_def run_simps)

lemma faithful_extern:
  assumes "\<And>h. raised L h ev = err_of (respond h ev)"
  shows "faithful L (extern respond ev)"
  using assms by (auto simp: faithful_def run_simps err_of_def split: sum.splits)

lemma faithful_bnd:
  assumes "faithful L m" and "\<And>h t v. m h = (t, Inr v) \<Longrightarrow> faithful L (k v)"
  shows "faithful L (bnd m k)"
  unfolding faithful_def
proof
  fix h
  obtain t r where mh: "m h = (t, r)" by (cases "m h")
  from assms(1) mh have m: "\<forall>i<length t. \<forall>e. raised L (h @ take i t) (t ! i) = Some e
      \<longrightarrow> Suc i = length t \<and> r = Inl e"
    by (auto simp: faithful_def dest: spec[of _ h])
  show "case bnd m k h of
          (t, r) \<Rightarrow> \<forall>i<length t. \<forall>e. raised L (h @ take i t) (t ! i) = Some e
                      \<longrightarrow> Suc i = length t \<and> r = Inl e"
  proof (cases r)
    case (Inl e)
    with mh m show ?thesis by (simp add: bnd_def)
  next
    case (Inr v)
    obtain t' r' where kv: "k v (h @ t) = (t', r')" by (cases "k v (h @ t)")
    from assms(2) mh Inr have "faithful L (k v)" by simp
    with kv have k: "\<forall>i<length t'. \<forall>e. raised L ((h @ t) @ take i t') (t' ! i) = Some e
        \<longrightarrow> Suc i = length t' \<and> r' = Inl e"
      by (auto simp: faithful_def dest: spec[of _ "h @ t"])
    have "\<forall>i<length (t @ t'). \<forall>e. raised L (h @ take i (t @ t')) ((t @ t') ! i) = Some e
        \<longrightarrow> Suc i = length (t @ t') \<and> r' = Inl e"
    proof (intro allI impI)
      fix i e
      assume i: "i < length (t @ t')" and e: "raised L (h @ take i (t @ t')) ((t @ t') ! i) = Some e"
      show "Suc i = length (t @ t') \<and> r' = Inl e"
      proof (cases "i < length t")
        case True
        with e have "raised L (h @ take i t) (t ! i) = Some e" by (simp add: nth_append)
        with m True Inr show ?thesis by auto
      next
        case False
        then have "raised L ((h @ t) @ take (i - length t) t') (t' ! (i - length t)) = Some e"
          using e by (simp add: nth_append)
        moreover have "i - length t < length t'" using i False by simp
        ultimately have "Suc (i - length t) = length t' \<and> r' = Inl e" using k by blast
        with False show ?thesis by auto
      qed
    qed
    with mh Inr kv show ?thesis by (simp add: bnd_def)
  qed
qed

lemma faithful_call_fn:
  assumes "\<And>h. raised L h (Call line a PNone as kws) = err_of (respond h (Call line a PNone as kws))"
  shows "faithful L (call_fn respond line a as kws)"
  unfolding call_fn_def using assms by (rule faithful_extern)

lemma faithful_call_method:
  assumes "\<And>h. raised L h (Call line a obj as kws) = err_of (respond h (Call line a obj as kws))"
  shows "faithful L (call_method respond line obj a as kws)"
  unfolding call_method_def using assms by (rule faithful_extern)

lemma faithful_construct:
  assumes "\<And>h. raised L h (Call line a PNone as kws) = err_of (r_none L h (Call line a PNone as kws))"
  shows "faithful L (construct L line a as kws)"
  unfolding construct_def by (intro faithful_bnd faithful_call_fn faithful_ret assms)

lemma faithful_case_prod: "(\<And>a b. faithful L (k a b)) \<Longrightarrow> faithful L (case v of (a, b) \<Rightarrow> k a b)"
  by (cases v) simp

lemma faithful_for_each:
  assumes "\<And>v s. faithful L (body v s)"
  shows "faithful L (for_each xs body s)"
  by (induction xs arbitrary: s) (auto intro: faithful_ret faithful_bnd assms)

lemmas faithful_intros = faithful_ret faithful_lift faithful_call_fn faithful_call_method
  faithful_construct faithful_case_prod faithful_for_each faithful_bnd

lemma gp_faithful: "faithful L (gp_notebook L)"
  unfolding gp_notebook_def gp_cells Let_def
  by (rule faithful_intros | simp add: raised_def)+

lemma nn_faithful: "faithful L (nn_notebook L)"
  unfolding nn_notebook_def nn_setup_def benchmark_def benchmark_step_def query_once_def
    plot_query_time_def plot_speedup_def plot_precision_def nn_publish_def publish_cell_def Let_def
  by (rule faithful_intros | simp add: raised_def)+

section \<open>Computations that return\<close>

lemma yields_ret: "Q v \<Longrightarrow> yields (ret v) Q"
  by (simp add: yields_def run_simps)

lemma yields_lift: "r = Inr v \<Longrightarrow> yields (lift r) (\<lambda>x. x = v)"
  by (simp add: yields_def run_simps)

lemma yields_bnd:
  assumes "yields m P" and "\<And>v. P v \<Longrightarrow> yields (k v) Q"
  shows "yields (bnd m k) Q"
  unfolding yields_def
proof
  fix h
  obtain t r where mh: "m h = (t, r)" by (cases "m h")
  with assms(1) obtain v where r: "r = Inr v" and "P v"
    by (cases r) (auto simp: yields_def dest: spec[of _ h])
  with assms(2) have "yields (k v) Q" by simp
  then have "case snd (k v (h @ t)) of Inl e \<Rightarrow> False | Inr v \<Rightarrow> Q v"
    by (simp add: yields_def)
  with mh r show "case snd (bnd m k h) of Inl e \<Rightarrow> False | Inr v \<Rightarrow> Q v"
    by (cases "k v (h @ t)") (simp add: bnd_def)
qed

lemma yields_weaken: "yields m P \<Longrightarrow> (\<And>v. P v \<Longrightarrow> Q v) \<Longrightarrow> yields m Q"
  by (auto simp: yields_def split: sum.splits)

lemma yields_extern:
  assumes "\<And>h. case respond h ev of Inl e \<Rightarrow> False | Inr v \<Rightarrow> Q v"
  shows "yields (extern respond ev) Q"
  using assms by (simp add: yields_def run_simps)

lemma yields_case_prod: "(\<And>a b. yields (k a b) Q) \<Longrightarrow> yields (case v of (a, b) \<Rightarrow> k a b) Q"
  by (cases v) simp

lemma yields_for_each:
  assumes "I s" and "\<And>v s. I s \<Longrightarrow> yields (body v s) I"
  shows "yields (for_each xs body s) I"
  using assms(1)
proof (induction xs arbitrary: s)
  case Nil
  then show ?case by (simp add: yields_ret)
next
  case (Cons x xs)
  show ?case
    unfolding for_each.simps
    by (rule yields_bnd[OF assms(2)[OF Cons.prems]]) (rule Cons.IH)
qed

lemma not_isl_iff: "\<not> isl r \<longleftrightarrow> (\<exists>v. r = Inr v)"
  by (cases r) simp_all

lemma reliableD:
  assumes "reliable L"
  shows "r_none L h ev = Inr ()" "\<exists>v. r_real L h ev = Inr v" "\<exists>v. r_int L h ev = Inr v"
    "\<exists>v. r_vec L h ev = Inr v" "\<exists>v. r_vecs L h ev = Inr v" "\<exists>v. r_imat L h ev = Inr v"
    "\<exists>v. r_blobs L h ev = Inr v"
  using assms unfolding reliable_def not_isl_iff by auto

lemma yields_none_fn:
  "reliable L \<Longrightarrow> yields (call_fn (r_none L) line a as kws) (\<lambda>u. True)"
  unfolding call_fn_def by (rule yields_extern) (simp add: reliableD)

lemma yields_none_method:
  "reliable L \<Longrightarrow> yields (call_method (r_none L) line obj a as kws) (\<lambda>u. True)"
  unfolding call_method_def by (rule yields_extern) (simp add: reliableD)

lemma yields_construct:
  "reliable L \<Longrightarrow> yields (construct L line a as kws) (\<lambda>v. v = PObj a as kws)"
  unfolding construct_def
  by (rule yields_bnd[OF yields_none_fn]) (simp_all add: yields_ret)

lemma yields_real:
  assumes "reliable L"
  shows "yields (call_fn (r_real L) line a as kws) (\<lambda>u. True)"
  unfolding call_fn_def
proof (rule yields_extern)
  fix h
  from reliableD(2)[OF assms] obtain v where "r_real L h (Call line a PNone as kws) = Inr v"
    by blast
  then show "case r_real L h (Call line a PNone as kws) of Inl e \<Rightarrow> False | Inr v \<Rightarrow> True"
    by simp
qed

lemma yields_imat:
  assumes "reliable L"
  shows "yields (call_method (r_imat L) line obj a as kws) (\<lambda>u. True)"
  unfolding call_method_def
proof (rule yields_extern)
  fix h
  from reliableD(6)[OF assms] obtain v where "r_imat L h (Call line a obj as kws) = Inr v"
    by blast
  then show "case r_imat L h (Call line a obj as kws) of Inl e \<Rightarrow> False | Inr v \<Rightarrow> True"
    by simp
qed

lemma yields_vec:
  assumes "reliable L" "documented L"
  shows "yields (call_fn (r_vec L) line a as kws) (\<lambda>v. length v = rows (last as))"
  unfolding call_fn_def
proof (rule yields_extern)
  fix h
  let ?ev = "Call line a PNone as kws"
  from reliableD(4)[OF assms(1)] obtain v where v: "r_vec L h ?ev = Inr v" by blast
  with assms(2) have "length v = rows (last as)"
    by (auto simp: documented_def shapes_random_def)
  with v show "case r_vec L h ?ev of Inl e \<Rightarrow> False | Inr v \<Rightarrow> length v = rows (last as)"
    by simp
qed

lemma yields_vecs:
  assumes "reliable L" "documented L"
  shows "yields (call_method (r_vecs L) line obj a as kws)
           (\<lambda>(p, q). length p = rows (last as) \<and> length q = rows (last as))"
  unfolding call_method_def
proof (rule yields_extern)
  fix h
  let ?ev = "Call line a obj as kws"
  from reliableD(5)[OF assms(1)] obtain p q where v: "r_vecs L h ?ev = Inr (p, q)" by fastforce
  with assms(2) have "length p = rows (last as) \<and> length q = rows (last as)"
    by (auto simp: documented_def shapes_predict_def)
  with v show "case r_vecs L h ?ev of Inl e \<Rightarrow> False
      | Inr v \<Rightarrow> (case v of (p, q) \<Rightarrow> length p = rows (last as) \<and> length q = rows (last as))"
    by simp
qed

lemma yields_int:
  assumes "reliable L" "documented L" "lo < hi"
  shows "yields (call_method (r_int L) line obj a [PInt lo, PInt hi] kws) (\<lambda>r. lo \<le> r \<and> r < hi)"
  unfolding call_method_def
proof (rule yields_extern)
  fix h
  let ?ev = "Call line a obj [PInt lo, PInt hi] kws"
  from reliableD(3)[OF assms(1)] obtain r where v: "r_int L h ?ev = Inr r" by blast
  with assms(2,3) have "lo \<le> r \<and> r < hi"
    by (auto simp: documented_def range_randint_def int_of_def dest!: spec)
  with v show "case r_int L h ?ev of Inl e \<Rightarrow> False | Inr r \<Rightarrow> lo \<le> r \<and> r < hi"
    by simp
qed

lemma yields_blobs:
  assumes "reliable L" "documented L"
  shows "yields (call_fn (r_blobs L) line a as kws)
           (\<lambda>(m, l). length m = nat (int_of (map_of kws ''n_samples'')))"
  unfolding call_fn_def
proof (rule yields_extern)
  fix h
  let ?ev = "Call line a PNone as kws"
  from reliableD(7)[OF assms(1)] obtain m l where v: "r_blobs L h ?ev = Inr (m, l)" by fastforce
  with assms(2) have "length m = nat (int_of (map_of kws ''n_samples''))"
    by (auto simp: documented_def shapes_blobs_def kwarg_def dest!: spec)
  with v show "case r_blobs L h ?ev of Inl e \<Rightarrow> False
      | Inr v \<Rightarrow> (case v of (m, l) \<Rightarrow> length m = nat (int_of (map_of kws ''n_samples'')))"
    by simp
qed

lemmas yields_calls = yields_none_fn yields_none_method yields_construct yields_real yields_imat
  yields_vec yields_vecs yields_blobs

lemma take_rows_ok: "0 \<le> r \<Longrightarrow> r < int (length xs) \<Longrightarrow> take_rows xs r = Inr [xs ! nat r]"
  by (simp add: take_rows_def)

lemma query_once_yields:
  assumes rel: "reliable L" and doc: "documented L"
    and q: "length (queries w) = 100"
    and I: "length (time_exact tm) = length (time_approx tm)"
  shows "yields (query_once L w lshf nbrs i tm)
           (\<lambda>tm'. length (time_exact tm') = length (time_approx tm'))"
  unfolding query_once_def Let_def
  apply (rule yields_bnd[OF yields_int[OF rel doc]])
   apply (simp add: n_queries_def)
  apply (rule yields_bnd[OF yields_lift])
   apply (rule take_rows_ok; simp add: q n_queries_def)
  apply (rule yields_bnd[OF yields_real[OF rel]])
  apply (rule yields_bnd[OF yields_imat[OF rel]])
  apply (rule yields_bnd[OF yields_real[OF rel]])
  apply (rule yields_bnd[OF yields_real[OF rel]])
  apply (rule yields_bnd[OF yields_imat[OF rel]])
  apply (rule yields_bnd[OF yields_real[OF rel]])
  apply (rule yields_ret)
  apply (simp add: I)
  done

lemma broadcast1_same: "length a = length b \<Longrightarrow> broadcast1 opr a b = Inr (map2 opr a b)"
  by (simp add: broadcast1_def)

lemma benchmark_step_yields:
  assumes rel: "reliable L" and doc: "documented L" and q: "length (queries w) = 100"
  shows "yields (benchmark_step L n w) (\<lambda>w'. length (queries w') = 100)"
  unfolding benchmark_step_def Let_def
  apply (rule yields_bnd[OF yields_construct[OF rel]])
  apply (rule yields_bnd[OF yields_none_method[OF rel]])
  apply (rule yields_bnd[OF yields_construct[OF rel]])
  apply (rule yields_bnd[OF yields_none_method[OF rel]])
  apply (rule yields_bnd)
   apply (rule yields_for_each[where I = "\<lambda>tm. length (time_exact tm) = length (time_approx tm)"])
    apply simp
   apply (rule query_once_yields[OF rel doc q], assumption)
  apply (rule yields_bnd[OF yields_lift])
   apply (erule broadcast1_same)
  apply (rule yields_bnd[OF yields_none_fn[OF rel]])
  apply (rule yields_ret)
  apply (simp add: q)
  done

lemma nn_setup_yields:
  assumes rel: "reliable L" and doc: "documented L"
  shows "yields (nn_setup L) (\<lambda>w. length (queries w) = 100)"
  unfolding nn_setup_def Let_def
  apply (rule yields_bnd[OF yields_construct[OF rel]])
  apply (rule yields_bnd[OF yields_blobs[OF rel doc]])
  subgoal for gen v
    by (cases v) (auto intro!: yields_ret simp: slice_to_def n_queries_def n_samples_max_def int_of_def)
  done

lemma benchmark_yields:
  assumes rel: "reliable L" and doc: "documented L" and q: "length (queries w) = 100"
  shows "yields (benchmark L w) (\<lambda>w'. length (queries w') = 100)"
  unfolding benchmark_def
  by (rule yields_for_each[where I = "\<lambda>w'. length (queries w') = 100"])
    (rule q, rule benchmark_step_yields[OF rel doc])

lemma plots_yield:
  assumes rel: "reliable L"
  shows "yields (plot_query_time L w) (\<lambda>u. True)"
    and "yields (plot_speedup L w) (\<lambda>u. True)"
    and "yields (plot_precision L w) (\<lambda>u. True)"
    and "yields (publish_cell L line0 as kws) (\<lambda>u. True)"
  unfolding plot_query_time_def plot_speedup_def plot_precision_def publish_cell_def
  by (rule yields_bnd[OF yields_construct[OF rel]] yields_bnd[OF yields_none_fn[OF rel]]
      yields_none_fn[OF rel])+

lemma nn_notebook_yields:
  assumes rel: "reliable L" and doc: "documented L"
  shows "yields (nn_notebook L) (\<lambda>w. True)"
  unfolding nn_notebook_def nn_publish_def
  apply (rule yields_bnd[OF yields_none_fn[OF rel]])
  apply (rule yields_bnd[OF nn_setup_yields[OF rel doc]])
  apply (rule yields_bnd[OF benchmark_yields[OF rel doc]], assumption)
  apply (rule yields_bnd[OF plots_yield(1)[OF rel]])
  apply (rule yields_bnd[OF plots_yield(2)[OF rel]])
  apply (rule yields_bnd[OF plots_yield(3)[OF rel]])
  apply (rule yields_bnd[OF plots_yield(4)[OF rel]])
  apply (rule yields_ret)
  apply simp
  done

lemma column_T: "np_T (atleast_2d v) = map (\<lambda>a. [a]) v"
  unfolding np_T_def atleast_2d_def by (induction v) simp_all

lemma length_linspace [simp]: "length (linspace a b n) = n"
  by (simp add: linspace_def)

lemma f_rows: "f x = map (map (\<lambda>a. a * sin a)) x"
  unfolding f_def np_multiply_def np_sin_def
  by (simp add: zip_map2 zip_same_conv_map comp_def)

lemma f_nonempty: "\<forall>r\<in>set x. r \<noteq> [] \<Longrightarrow> \<forall>r\<in>set (f x). r \<noteq> []"
  by (simp add: f_rows)

lemma band_nonempty: "\<forall>r\<in>set x. r \<noteq> [] \<Longrightarrow> \<forall>r\<in>set (concatenate [x, reversed x]). r \<noteq> []"
  by (simp add: concatenate_def reversed_def)

lemma function_trace_yields:
  assumes rel: "reliable L" and g: "gp_shape g"
  shows "yields (function_trace L line g) (\<lambda>p. True)"
  unfolding function_trace_def
  apply (rule yields_bnd[OF yields_lift])
   apply (rule data_to_plotly_ok)
  using g apply (simp add: gp_shape_def)
  apply (rule yields_bnd[OF yields_lift])
   apply (rule data_to_plotly_ok)
   apply (rule f_nonempty)
  using g apply (simp add: gp_shape_def)
  apply (rule yields_weaken[OF yields_construct[OF rel]])
  apply simp
  done

lemma prediction_trace_yields:
  assumes rel: "reliable L" and g: "gp_shape g"
  shows "yields (prediction_trace L line g) (\<lambda>p. True)"
  unfolding prediction_trace_def
  apply (rule yields_bnd[OF yields_lift])
   apply (rule data_to_plotly_ok)
  using g apply (simp add: gp_shape_def)
  apply (rule yields_weaken[OF yields_construct[OF rel]])
  apply simp
  done

lemma confidence_trace_yields:
  assumes rel: "reliable L" and g: "gp_shape g"
  shows "yields (confidence_trace L line g) (\<lambda>p. True)"
  unfolding confidence_trace_def
  apply (rule yields_bnd[OF yields_lift])
   apply (rule data_to_plotly_ok)
   apply (rule band_nonempty)
  using g apply (simp add: gp_shape_def)
  apply (rule yields_bnd[OF yields_lift])
   apply (rule broadcast1_same)
  using g apply (simp add: gp_shape_def scalar_mul_def)
  apply (rule yields_weaken[OF yields_construct[OF rel]])
  apply simp
  done

lemma gp_figure_yields:
  assumes rel: "reliable L" and g: "gp_shape g"
  shows "yields (gp_figure L l1 l2 g) gp_shape"
  unfolding gp_figure_def Let_def
  apply (rule yields_bnd[OF yields_construct[OF rel]])
  apply (rule yields_bnd[OF yields_construct[OF rel]])
  apply (rule yields_ret)
  using g apply (simp add: gp_shape_def)
  done

lemma gp_plot_noiseless_yields:
  assumes rel: "reliable L" and g: "gp_shape g"
  shows "yields (gp_plot_noiseless L g) gp_shape"
  unfolding gp_plot_noiseless_def
  apply (rule yields_bnd[OF function_trace_yields[OF rel g]])
  apply (rule yields_bnd[OF yields_lift])
   apply (rule data_to_plotly_ok)
  using g apply (simp add: gp_shape_def)
  apply (rule yields_bnd[OF yields_construct[OF rel]])
  apply (rule yields_bnd[OF prediction_trace_yields[OF rel g]])
  apply (rule yields_bnd[OF confidence_trace_yields[OF rel g]])
  apply (rule gp_figure_yields[OF rel])
  using g apply (simp add: gp_shape_def)
  done

lemma gp_plot_noisy_yields:
  assumes rel: "reliable L" and g: "gp_shape g"
  shows "yields (gp_plot_noisy L g) gp_shape"
  unfolding gp_plot_noisy_def
  apply (rule yields_bnd[OF function_trace_yields[OF rel g]])
  apply (rule yields_bnd[OF yields_construct[OF rel]])
  apply (rule yields_bnd[OF prediction_trace_yields[OF rel g]])
  apply (rule yields_bnd[OF confidence_trace_yields[OF rel g]])
  apply (rule gp_figure_yields[OF rel])
  using g apply (simp add: gp_shape_def)
  done

lemma gp_iplot_yields:
  assumes rel: "reliable L" and g: "gp_shape g"
  shows "yields (gp_iplot L line g) gp_shape"
  unfolding gp_iplot_def
  by (rule yields_bnd[OF yields_none_fn[OF rel]]) (rule yields_ret, rule g)

lemma gp_noiseless_yields:
  assumes rel: "reliable L" and doc: "documented L"
  shows "yields (gp_noiseless L g) gp_shape"
  unfolding gp_noiseless_def Let_def
  apply (rule yields_bnd[OF yields_construct[OF rel]])
  apply (rule yields_bnd[OF yields_construct[OF rel]])
  apply (rule yields_bnd[OF yields_none_method[OF rel]])
  apply (rule yields_bnd[OF yields_construct[OF rel]])
  apply (rule yields_bnd[OF yields_none_method[OF rel]])
  apply (rule yields_bnd[OF yields_vecs[OF rel doc]])
  subgoal for c r u gp u' v
    by (cases v) (auto intro!: yields_ret simp: gp_shape_def column_T rows_def)
  done

lemma iadd_same: "length n = length y \<Longrightarrow> iadd y n = Inr (map2 (+) y n)"
  by (simp add: iadd_def)

lemma gp_noisy_yields:
  assumes rel: "reliable L" and doc: "documented L" and g: "gp_shape g"
  shows "yields (gp_noisy L g) gp_shape"
  unfolding gp_noisy_def Let_def
  apply (rule yields_bnd[OF yields_vec[OF rel doc]])
  apply (rule yields_bnd[OF yields_vec[OF rel doc]])
  apply (rule yields_bnd[OF yields_lift])
   apply (rule iadd_same)
   apply (simp add: rows_def scalar_add_def scalar_mul_def)
  apply (rule yields_bnd[OF yields_lift])
   apply (rule broadcast1_same)
   apply (simp add: rows_def scalar_add_def scalar_mul_def)
  apply (rule yields_bnd[OF yields_construct[OF rel]])
  apply (rule yields_bnd[OF yields_none_method[OF rel]])
  apply (rule yields_bnd[OF yields_vecs[OF rel doc]])
  subgoal for u noise y q gp u' v
    using g by (cases v) (auto intro!: yields_ret simp: gp_shape_def column_T rows_def)
  done

lemma gp_notebook_yields:
  assumes rel: "reliable L" and doc: "documented L"
  shows "yields (gp_notebook L) (\<lambda>g. True)"
  unfolding gp_notebook_def gp_publish_def gp_setup_def
  apply (rule yields_bnd)
   apply (rule yields_bnd[OF yields_none_fn[OF rel]])
   apply (rule yields_ret[where Q = "\<lambda>g. True"], simp)
  apply (rule yields_bnd[OF gp_noiseless_yields[OF rel doc]])
  apply (rule yields_bnd[OF gp_plot_noiseless_yields[OF rel]], assumption)
  apply (rule yields_bnd[OF gp_iplot_yields[OF rel]], assumption)
  apply (rule yields_bnd[OF gp_noisy_yields[OF rel doc]], assumption)
  apply (rule yields_bnd[OF gp_plot_noisy_yields[OF rel]], assumption)
  apply (rule yields_bnd[OF gp_iplot_yields[OF rel]], assumption)
  apply (rule yields_bnd[OF plots_yield(4)[OF rel]])
  apply (rule yields_ret)
  apply simp
  done

section \<open>The metric lists of the benchmark\<close>

lemma calm_reliable: "reliable calm"
  by (simp add: reliable_def calm_def)

lemma calm_documented: "documented calm"
  by (simp add: documented_def shapes_random_def shapes_predict_def range_randint_def
      shapes_blobs_def calm_def)

lemma yieldsD:
  assumes "yields m Q"
  shows "\<exists>t v. m h = (t, Inr v) \<and> Q v"
proof -
  obtain t r where mh: "m h = (t, r)" by (cases "m h")
  with assms show ?thesis
    by (cases r) (auto simp: yields_def dest: spec[of _ h])
qed

lemma yields_returns: "yields m Q \<Longrightarrow> \<not> isl (outcome m)"
  using yieldsD[of m Q "[]"] by (auto simp: outcome_def)

lemma nn_setup_empty:
  assumes "nn_setup L h = (t, Inr w)"
  shows "metric_lists w = replicate 7 []"
  using assms unfolding nn_setup_def Let_def metric_lists_def
  by (auto simp: bnd_Inr_iff run_simps construct_Inr_iff numeral_eq_Suc split: prod.splits)

lemma grown_from_empty:
  assumes "grown k w w'" and "metric_lists w = replicate 7 []"
  shows "map length (metric_lists w') = replicate 7 k"
    and "\<And>j w''. grown j w' w'' \<Longrightarrow> map (take k) (metric_lists w'') = metric_lists w'"
proof -
  from assms(1) obtain new where new: "length new = 7" "list_all (\<lambda>a. length a = k) new"
    "metric_lists w' = map2 (@) (metric_lists w) new"
    unfolding grown_def by blast
  have eq: "metric_lists w' = new"
    unfolding new(3) assms(2) using new(1)
    by (intro nth_equalityI) simp_all
  show "map length (metric_lists w') = replicate 7 k"
    unfolding eq using new(1,2) by (intro nth_equalityI) (simp_all add: list_all_length)
  fix j w''
  assume "grown j w' w''"
  then obtain more where more: "length more = 7" "metric_lists w'' = map2 (@) (metric_lists w') more"
    unfolding grown_def by blast
  show "map (take k) (metric_lists w'') = metric_lists w'"
    unfolding more(2) eq using new(1,2) more(1)
    by (intro nth_equalityI) (simp_all add: list_all_length)
qed

text \<open>
  C9. After the benchmark loop of the nearest neighbours notebook has completed,
  \<open>n_samples_values\<close> holds exactly \<open>n_steps = 6\<close> strictly increasing integers,
  the first 1000 and the last 100000, and each of the seven metric lists
  (\<open>average_times_exact\<close>, \<open>average_times_approx\<close>, \<open>std_times_approx\<close>,
  \<open>accuracies\<close>, \<open>std_accuracies\<close>, \<open>average_speedups\<close>, \<open>std_speedups\<close>)
  holds one entry for each element of \<open>n_samples_values\<close>, appended in the same
  order: the loop over the first \<open>k\<close> values alone leaves the first \<open>k\<close> entries of
  each list.
\<close>

theorem benchmark_metric_lists:
  assumes "nn_setup L h0 = (t0, Inr w0)" and "benchmark L w0 h = (t, Inr w)"
  shows "length (n_samples_values w) = n_steps \<and> n_steps = 6 \<and>
     sorted_wrt (<) (n_samples_values w) \<and>
     hd (n_samples_values w) = 1000 \<and> last (n_samples_values w) = 100000 \<and>
     map length (metric_lists w) = replicate 7 (length (n_samples_values w)) \<and>
     (\<forall>k\<le>n_steps. \<exists>tk wk.
        for_each (take k (n_samples_values w)) (benchmark_step L) w0 h = (tk, Inr wk) \<and>
        metric_lists wk = map (take k) (metric_lists w))"
proof -
  let ?vs = "n_samples_values w0"
  have vs: "?vs = [1000, 2511, 6309, 15848, 39810, 100000]"
    by (rule nn_setup_values[OF assms(1)])
  have empty: "metric_lists w0 = replicate 7 []"
    by (rule nn_setup_empty[OF assms(1)])
  from assms(2) have run: "for_each ?vs (benchmark_step L) w0 h = (t, Inr w)"
    by (simp add: benchmark_def)
  have g: "grown (length ?vs) w0 w" by (rule grown_loop[OF run])
  then have same: "n_samples_values w = ?vs" by (simp add: grown_def)
  have len: "length ?vs = 6" by (simp add: vs)
  have lens: "map length (metric_lists w) = replicate 7 (length (n_samples_values w))"
    using grown_from_empty(1)[OF g empty] same by simp
  have pre: "\<exists>tk wk. for_each (take k (n_samples_values w)) (benchmark_step L) w0 h = (tk, Inr wk) \<and>
        metric_lists wk = map (take k) (metric_lists w)" if "k \<le> n_steps" for k
  proof -
    have "for_each (take k ?vs @ drop k ?vs) (benchmark_step L) w0 h = (t, Inr w)"
      using run by simp
    from for_each_split[OF this] obtain t1 w1 t2 where
      a: "for_each (take k ?vs) (benchmark_step L) w0 h = (t1, Inr w1)" and
      b: "for_each (drop k ?vs) (benchmark_step L) w1 (h @ t1) = (t2, Inr w)" by blast
    have k: "length (take k ?vs) = k" using that len by (simp add: n_steps_def)
    from grown_loop[OF a] k have g1: "grown k w0 w1" by simp
    from grown_from_empty(2)[OF g1 empty grown_loop[OF b]]
    have "map (take k) (metric_lists w) = metric_lists w1" .
    with a same show ?thesis by auto
  qed
  from vs same lens pre show ?thesis
    by (simp add: n_steps_def)
qed

theorem benchmark_metric_lists_witness:
  "\<exists>t0 w0 t w. nn_setup calm [] = (t0, Inr w0) \<and> benchmark calm w0 t0 = (t, Inr w) \<and>
     length (n_samples_values w) = 6 \<and> hd (n_samples_values w) = 1000 \<and>
     last (n_samples_values w) = 100000 \<and>
     map length (metric_lists w) = [6, 6, 6, 6, 6, 6, 6]"
proof -
  from yieldsD[OF nn_setup_yields[OF calm_reliable calm_documented], of "[]"]
  obtain t0 w0 where s: "nn_setup calm [] = (t0, Inr w0)" and q: "length (queries w0) = 100"
    by blast
  from yieldsD[OF benchmark_yields[OF calm_reliable calm_documented q], of t0]
  obtain t w where b: "benchmark calm w0 t0 = (t, Inr w)" by blast
  from benchmark_metric_lists[OF s b] s b show ?thesis
    by (simp add: n_steps_def numeral_eq_Suc)
qed

section \<open>No recovery from errors\<close>

lemma faithfulD:
  assumes "faithful L m" and "i < length (trace m)"
    and "raised L (take i (trace m)) (trace m ! i) = Some e"
  shows "Suc i = length (trace m) \<and> outcome m = Inl e"
proof -
  obtain t r where m: "m [] = (t, r)" by (cases "m []")
  from assms(1) m
  have "\<forall>i<length t. \<forall>e. raised L ([] @ take i t) (t ! i) = Some e \<longrightarrow> Suc i = length t \<and> r = Inl e"
    unfolding faithful_def by (auto dest: spec[of _ "[]"])
  with assms(2,3) m show ?thesis by (simp add: trace_def outcome_def)
qed

text \<open>
  C5. When an external call (an estimator constructor, \<open>fit\<close>, \<open>predict\<close> or
  \<open>kneighbors\<close>, a chart constructor, the remote plotting call, or any other) raises,
  the notebook does not recover: the call that raised is the last call the notebook
  makes, so nothing is retried and no fallback is computed, and the notebook ends with
  the very error raised.
\<close>

theorem errors_propagate:
  "(i < length (trace (gp_notebook L)) \<and>
    raised L (take i (trace (gp_notebook L))) (trace (gp_notebook L) ! i) = Some e
    \<longrightarrow> Suc i = length (trace (gp_notebook L)) \<and> outcome (gp_notebook L) = Inl e) \<and>
   (j < length (trace (nn_notebook L)) \<and>
    raised L (take j (trace (nn_notebook L))) (trace (nn_notebook L) ! j) = Some e'
    \<longrightarrow> Suc j = length (trace (nn_notebook L)) \<and> outcome (nn_notebook L) = Inl e')"
  using faithfulD[OF gp_faithful, of i L e] faithfulD[OF nn_faithful, of j L e'] by blast

lemma bnd_eval:
  "bnd m k h = (case m h of (t, Inl e) \<Rightarrow> (t, Inl e)
     | (t, Inr v) \<Rightarrow> (case k v (h @ t) of (t', r) \<Rightarrow> (t @ t', r)))"
  by (simp add: bnd_def)

lemma construct_eval:
  "construct L line a as kws h =
     ([Call line a PNone as kws],
      case r_none L h (Call line a PNone as kws) of Inl e \<Rightarrow> Inl e | Inr u \<Rightarrow> Inr (PObj a as kws))"
  by (simp add: construct_def bnd_def run_simps split: sum.splits)

lemma unfit_sel:
  "r_none unfit = (\<lambda>h ev. if api ev = Fit then Inl (LibraryError ''fit'') else Inr ())"
  "r_blobs unfit = r_blobs calm"
  by (simp_all add: unfit_def)

lemma gp_unfit:
  "\<exists>e0 e1 e2 e3 e4 X y. gp_notebook unfit [] =
     ([e0, e1, e2, e3, e4, Call 149 Fit (PObj GaussianProcessRegressor [] 
          [(''kernel'', PObj KernelProduct
               [PObj ConstantKernel [PNum 1.0, PTuple [PNum 0.001, PNum 1000]] [],
                PObj RBF [PInt 10, PTuple [PNum 0.01, PNum 100]] []] []),
           (''n_restarts_optimizer'', PInt 9)]) [PMat X, PVec y] []],
      Inl (LibraryError ''fit''))"
  unfolding gp_notebook_def gp_setup_def gp_noiseless_def Let_def
  by (simp add: bnd_eval construct_eval run_simps unfit_sel)

lemma nn_unfit:
  "\<exists>e0 e1 e2 e3 X. nn_notebook unfit [] =
     ([e0, e1, e2, e3, Call 173 Fit (PObj LSHForest []
          [(''n_estimators'', PInt 20), (''n_candidates'', PInt 200),
           (''n_neighbors'', PInt 10)]) [PMat X] []],
      Inl (LibraryError ''fit''))"
  unfolding nn_notebook_def nn_setup_def benchmark_def benchmark_step_def Let_def n_samples_values_eq
  by (simp add: bnd_eval construct_eval run_simps unfit_sel calm_def)

theorem errors_propagate_witness:
  "length (trace (gp_notebook unfit)) = 6 \<and>
   outcome (gp_notebook unfit) = Inl (LibraryError ''fit'') \<and>
   length (trace (nn_notebook unfit)) = 5 \<and>
   outcome (nn_notebook unfit) = Inl (LibraryError ''fit'')"
proof -
  let ?e = "LibraryError ''fit''"
  from gp_unfit have g: "length (trace (gp_notebook unfit)) = 6"
    "raised unfit (take 5 (trace (gp_notebook unfit))) (trace (gp_notebook unfit) ! 5) = Some ?e"
    by (auto simp: trace_def raised_def unfit_sel err_of_def)
  from nn_unfit have n: "length (trace (nn_notebook unfit)) = 5"
    "raised unfit (take 4 (trace (nn_notebook unfit))) (trace (nn_notebook unfit) ! 4) = Some ?e"
    by (auto simp: trace_def raised_def unfit_sel err_of_def)
  from errors_propagate[of 5 unfit ?e 4 ?e] g n show ?thesis by simp
qed

section \<open>Call signatures\<close>

lemma followsD:
  assumes "follows sk m"
  shows "prefix (map tag (trace m)) sk" and "\<not> isl (outcome m) \<Longrightarrow> map tag (trace m) = sk"
proof -
  obtain t r where m: "m [] = (t, r)" by (cases "m []")
  from assms have c: "case m [] of (t, Inr v) \<Rightarrow> map tag t = sk | (t, Inl e) \<Rightarrow> prefix (map tag t) sk"
    by (simp add: follows_def)
  from c m show "prefix (map tag (trace m)) sk"
    by (cases r) (simp_all add: trace_def)
  from c m show "\<not> isl (outcome m) \<Longrightarrow> map tag (trace m) = sk"
    by (cases r) (simp_all add: trace_def outcome_def)
qed

lemma emitsD: "emits P m \<Longrightarrow> list_all P (trace m)"
  by (simp add: emits_def trace_def)

lemmas nn_cells = nn_setup_def benchmark_def benchmark_step_def query_once_def
    plot_query_time_def plot_speedup_def plot_precision_def nn_publish_def publish_cell_def

lemma gp_signatures: "emits stated_signature (gp_notebook L)"
  unfolding gp_notebook_def gp_cells Let_def
  by (rule emits_intros emits_bnd
      | simp add: stated_signature_def fit_X_y_def one_array_def)+

lemma nn_signatures: "emits unsupervised_signature (nn_notebook L)"
  unfolding nn_notebook_def nn_cells Let_def
  by (rule emits_intros emits_bnd
      | simp add: unsupervised_signature_def fit_X_only_def one_array_def)+

lemma gp_calm_returns: "\<not> isl (outcome (gp_notebook calm))"
  by (rule yields_returns[OF gp_notebook_yields[OF calm_reliable calm_documented]])

lemma nn_calm_returns: "\<not> isl (outcome (nn_notebook calm))"
  by (rule yields_returns[OF nn_notebook_yields[OF calm_reliable calm_documented]])

lemma nn_skeleton_fit: "(173, Fit) \<in> set nn_skeleton"
  by (simp add: nn_skeleton_def step_skeleton_def n_steps_def numeral_eq_Suc)

text \<open>
  C1, as amended. In every call of the program, \<open>predict\<close> is passed one array and
  \<open>return_std=True\<close> and \<open>kneighbors\<close> one array and \<open>return_distance=False\<close>.
  In the Gaussian Process notebook \<open>fit\<close> is called with the sample matrix \<open>X\<close> and
  the target vector \<open>y\<close>; in the nearest neighbours notebook \<open>fit\<close> is called with
  the sample matrix \<open>X\<close> alone.
\<close>

theorem call_signatures:
  "list_all stated_signature (trace (gp_notebook L)) \<and>
   list_all unsupervised_signature (trace (nn_notebook L))"
  using emitsD[OF gp_signatures] emitsD[OF nn_signatures] by simp

text \<open>
  C1 as stated fails: run with a library in which every call succeeds, the nearest
  neighbours notebook calls \<open>fit\<close> with \<open>X\<close> only (lines 173 and 175).
\<close>

theorem call_signatures_counterexample:
  "\<not> list_all stated_signature (trace (nn_notebook calm))"
proof
  assume all: "list_all stated_signature (trace (nn_notebook calm))"
  have "map tag (trace (nn_notebook calm)) = nn_skeleton"
    by (rule followsD(2)[OF nn_follows nn_calm_returns])
  with nn_skeleton_fit obtain ev where ev: "ev \<in> set (trace (nn_notebook calm))"
    and t: "tag ev = (173, Fit)" by (metis (no_types, lifting) image_iff set_map)
  from emitsD[OF nn_signatures, of calm] ev have "unsupervised_signature ev"
    by (simp add: list_all_iff)
  with t have one: "fit_X_only ev" by (simp add: unsupervised_signature_def tag_def)
  from all ev have "stated_signature ev" by (simp add: list_all_iff)
  with t have two: "fit_X_y ev" by (simp add: stated_signature_def tag_def)
  from one two show False
    by (auto simp: fit_X_only_def fit_X_y_def split: list.splits pv.splits)
qed

section \<open>What the notebooks call\<close>

lemma gp_no_clock: "emits (\<lambda>ev. api ev \<noteq> Time) (gp_notebook L)"
  unfolding gp_notebook_def gp_cells Let_def
  by (rule emits_intros emits_bnd | simp)+

lemma nn_skeleton_eval:
  "nn_skeleton =
     [(84, Print), (123, NpRandomState), (124, MakeBlobs)]
     @ step_skeleton @ step_skeleton @ step_skeleton @ step_skeleton @ step_skeleton @ step_skeleton
     @ [(243, Scatter), (250, Scatter), (254, Layout), (258, Figure), (259, Iplot),
        (291, Scatter), (297, Layout), (300, Figure), (301, Iplot),
        (333, Scatter), (338, Layout), (341, Figure), (342, Iplot)]
     @ publish_skeleton 416"
  by (simp add: nn_skeleton_def n_steps_def numeral_eq_Suc)

lemma step_skeleton_eval:
  "step_skeleton =
     [(172, LSHForest), (173, Fit), (174, NearestNeighbors), (175, Fit)]
     @ query_skeleton @ query_skeleton @ query_skeleton @ query_skeleton @ query_skeleton
     @ [(200, Print)]"
  by (simp add: step_skeleton_def n_iter_def numeral_eq_Suc)

lemmas skeleton_eval = nn_skeleton_eval step_skeleton_eval query_skeleton_def
  publish_skeleton_def gp_skeleton_def

lemma nn_timed: "timed Print (map snd nn_skeleton)"
  by (simp add: skeleton_eval)

text \<open>
  C2, as amended. Both notebooks instantiate a model of the library, call its
  \<open>fit\<close> and its \<open>predict\<close> or \<open>kneighbors\<close>, and render charts through the remote
  plotting call: a run that completes makes exactly the calls of \<open>gp_skeleton\<close>,
  respectively \<open>nn_skeleton\<close>. Only the nearest neighbours notebook measures elapsed
  time, around each \<open>kneighbors\<close> call; the Gaussian Process notebook never reads the
  clock.
\<close>

theorem notebook_calls:
  "Time \<notin> set (map api (trace (gp_notebook L))) \<and>
   (\<not> isl (outcome (gp_notebook L)) \<longrightarrow> map tag (trace (gp_notebook L)) = gp_skeleton) \<and>
   (\<not> isl (outcome (nn_notebook L)) \<longrightarrow> map tag (trace (nn_notebook L)) = nn_skeleton) \<and>
   list_all (\<lambda>a. a \<in> set (map snd gp_skeleton))
     [GaussianProcessRegressor, Fit, Predict, Scatter, Layout, Figure, Iplot] \<and>
   list_all (\<lambda>a. a \<in> set (map snd nn_skeleton))
     [LSHForest, NearestNeighbors, Fit, Kneighbors, Time, Scatter, Layout, Figure, Iplot] \<and>
   timed Print (map snd nn_skeleton)"
proof -
  have "Time \<notin> set (map api (trace (gp_notebook L)))"
    using emitsD[OF gp_no_clock, of L] by (auto simp: list_all_iff)
  moreover have "list_all (\<lambda>a. a \<in> set (map snd gp_skeleton))
     [GaussianProcessRegressor, Fit, Predict, Scatter, Layout, Figure, Iplot]"
    by (simp add: skeleton_eval)
  moreover have "list_all (\<lambda>a. a \<in> set (map snd nn_skeleton))
     [LSHForest, NearestNeighbors, Fit, Kneighbors, Time, Scatter, Layout, Figure, Iplot]"
    by (simp add: skeleton_eval)
  ultimately show ?thesis
    using followsD(2)[OF gp_follows, of L] followsD(2)[OF nn_follows, of L] nn_timed
    by blast
qed

theorem notebook_calls_witness:
  "\<not> isl (outcome (gp_notebook calm)) \<and> map tag (trace (gp_notebook calm)) = gp_skeleton \<and>
   \<not> isl (outcome (nn_notebook calm)) \<and> map tag (trace (nn_notebook calm)) = nn_skeleton"
  using notebook_calls[of calm] gp_calm_returns nn_calm_returns by blast

text \<open>
  C2 as stated fails for the Gaussian Process notebook: run with a library in which
  every call succeeds, it completes without reading the clock once.
\<close>

theorem notebook_calls_counterexample:
  "\<not> isl (outcome (gp_notebook calm)) \<and> Time \<notin> set (map api (trace (gp_notebook calm)))"
  using gp_calm_returns emitsD[OF gp_no_clock, of calm] by (auto simp: list_all_iff)



section \<open>The order of the pipeline\<close>

lemma stages_append: "stages lo hi (xs @ zs) = stages lo hi xs @ stages lo hi zs"
  by (simp add: stages_def List.map_filter_def)

lemma stages_prefix:
  assumes "prefix xs ys"
  shows "sorted (stages lo hi ys) \<Longrightarrow> sorted (stages lo hi xs)"
    and "list_all P (stages lo hi ys) \<Longrightarrow> list_all P (stages lo hi xs)"
  using assms by (auto simp: prefix_def stages_append sorted_append)

lemma stages_eval:
  "stages lo hi [] = []"
  "stages lo hi (s # sk) =
     (if lo \<le> fst s \<and> fst s \<le> hi then (case stage (snd s) of None \<Rightarrow> stages lo hi sk
         | Some n \<Rightarrow> n # stages lo hi sk) else stages lo hi sk)"
  by (auto simp: stages_def List.map_filter_def split: option.splits)

text \<open>
  C7, as amended. Each chart is produced in the order of the pipeline, dataset, then
  estimator, then chart traces, then remote plotting call: in the Gaussian Process
  notebook once for the noiseless case (up to line 223) and once more for the noisy
  case (from line 224 on), which fits and predicts after the first chart has been
  plotted; in the nearest neighbours notebook once up to the first plotting call
  (line 259), after which the two other charts are built and plotted (lines 260 to
  301 and from 302 on) with no call to an estimator or a dataset generator any more.
\<close>

theorem pipeline_order:
  "sorted (stages 0 223 (map tag (trace (gp_notebook L)))) \<and>
   sorted (stages 224 500 (map tag (trace (gp_notebook L)))) \<and>
   sorted (stages 0 259 (map tag (trace (nn_notebook L)))) \<and>
   sorted (stages 260 301 (map tag (trace (nn_notebook L)))) \<and>
   sorted (stages 302 500 (map tag (trace (nn_notebook L)))) \<and>
   list_all (\<lambda>n. 2 \<le> n) (stages 260 500 (map tag (trace (nn_notebook L))))"
proof -
  note gp = followsD(1)[OF gp_follows, of L] and nn = followsD(1)[OF nn_follows, of L]
  have "sorted (stages 0 223 gp_skeleton)" by (simp add: skeleton_eval stages_eval)
  then have 1: "sorted (stages 0 223 (map tag (trace (gp_notebook L))))"
    by (rule stages_prefix(1)[OF gp])
  have "sorted (stages 224 500 gp_skeleton)" by (simp add: skeleton_eval stages_eval)
  then have 2: "sorted (stages 224 500 (map tag (trace (gp_notebook L))))"
    by (rule stages_prefix(1)[OF gp])
  have "sorted (stages 0 259 nn_skeleton)" by (simp add: skeleton_eval stages_eval)
  then have 3: "sorted (stages 0 259 (map tag (trace (nn_notebook L))))"
    by (rule stages_prefix(1)[OF nn])
  have "sorted (stages 260 301 nn_skeleton)" by (simp add: skeleton_eval stages_eval)
  then have 4: "sorted (stages 260 301 (map tag (trace (nn_notebook L))))"
    by (rule stages_prefix(1)[OF nn])
  have "sorted (stages 302 500 nn_skeleton)" by (simp add: skeleton_eval stages_eval)
  then have 5: "sorted (stages 302 500 (map tag (trace (nn_notebook L))))"
    by (rule stages_prefix(1)[OF nn])
  have "list_all (\<lambda>n. 2 \<le> n) (stages 260 500 nn_skeleton)"
    by (simp add: skeleton_eval stages_eval)
  then have 6: "list_all (\<lambda>n. 2 \<le> n) (stages 260 500 (map tag (trace (nn_notebook L))))"
    by (rule stages_prefix(2)[OF nn])
  from 1 2 3 4 5 6 show ?thesis by simp
qed

text \<open>
  C7 as stated fails: run with a library in which every call succeeds, the Gaussian
  Process notebook calls \<open>py.iplot\<close> at line 223 (its call number 13, counting from
  0) and \<open>fit\<close> at line 255 (its call number 17), so the stages of its calls are
  not in order.
\<close>

theorem pipeline_order_counterexample:
  "map tag (trace (gp_notebook calm)) ! 13 = (223, Iplot) \<and>
   map tag (trace (gp_notebook calm)) ! 17 = (255, Fit) \<and>
   \<not> sorted (stages 0 500 (map tag (trace (gp_notebook calm))))"
proof -
  have "map tag (trace (gp_notebook calm)) = gp_skeleton"
    by (rule followsD(2)[OF gp_follows gp_calm_returns])
  then show ?thesis by (simp add: skeleton_eval stages_eval)
qed

section \<open>The confidence trace\<close>

lemma data_to_plotly_Inr:
  assumes "data_to_plotly x = Inr k"
  shows "k = map (\<lambda>r. r ! 0) x"
proof (cases "\<exists>r\<in>set x. r = []")
  case True
  from data_to_plotly_fail[OF True] assms show ?thesis by simp
next
  case False
  then have "\<forall>r\<in>set x. r \<noteq> []" by blast
  from data_to_plotly_ok[OF this] assms show ?thesis by simp
qed

lemma emits_lift_bnd:
  assumes "\<And>v. r = Inr v \<Longrightarrow> emits P (k v)"
  shows "emits P (bnd (lift r) k)"
  by (rule emits_bnd[OF emits_lift]) (simp add: run_simps assms)

lemma broadcast1_length:
  "broadcast1 opr a b = Inr c \<Longrightarrow> length a = length b \<Longrightarrow> length c = length a"
  by (auto simp: broadcast1_def)

lemma confidence_trace_shape:
  assumes "gp_shape g"
  shows "emits confidence_shape (confidence_trace L line g)"
  unfolding confidence_trace_def
proof (intro emits_lift_bnd emits_construct)
  fix band_x lower
  assume x: "data_to_plotly (concatenate [v_x g, reversed (v_x g)]) = Inr band_x"
    and y: "broadcast1 (-) (v_y_pred g) (scalar_mul 1.9600 (v_sigma g)) = Inr lower"
  from data_to_plotly_Inr[OF x] assms have "length band_x = 2000"
    by (simp add: concatenate_def reversed_def gp_shape_def)
  moreover from broadcast1_length[OF y] assms have "length lower = 1000"
    by (simp add: scalar_mul_def gp_shape_def)
  ultimately show "confidence_shape (Call line Scatter PNone []
       [(''x'', PVec band_x), (''y'', PVec (concatenate [lower])),
        (''mode'', PStr ''lines''),
        (''line'', PDict [(''color'', PStr ''blue'')]),
        (''fill'', PStr ''tonexty''),
        (''name'', PStr ''95% confidence interval'')])"
    by (simp add: confidence_shape_def kwarg_def concatenate_def)
qed

lemma confidence_trace_content:
  "emits (lower_band_only g) (confidence_trace L line g)"
  unfolding confidence_trace_def
proof (intro emits_lift_bnd emits_construct)
  fix band_x lower
  assume x: "data_to_plotly (concatenate [v_x g, reversed (v_x g)]) = Inr band_x"
    and y: "broadcast1 (-) (v_y_pred g) (scalar_mul 1.9600 (v_sigma g)) = Inr lower"
  from data_to_plotly_Inr[OF x]
  have "band_x = map (\<lambda>r. r ! 0) (v_x g) @ rev (map (\<lambda>r. r ! 0) (v_x g))"
    by (simp add: concatenate_def reversed_def rev_map)
  moreover have "lower = map2 (\<lambda>p s. p - 1.9600 * s) (v_y_pred g) (v_sigma g)"
    if "length (v_y_pred g) = length (v_sigma g)"
    using y that by (auto simp: broadcast1_def scalar_mul_def zip_map2 split_def comp_def)
  ultimately show "lower_band_only g (Call line Scatter PNone []
       [(''x'', PVec band_x), (''y'', PVec (concatenate [lower])),
        (''mode'', PStr ''lines''),
        (''line'', PDict [(''color'', PStr ''blue'')]),
        (''fill'', PStr ''tonexty''),
        (''name'', PStr ''95% confidence interval'')])"
    by (simp add: lower_band_only_def kwarg_def concatenate_def)
qed

lemma gp_noiseless_post:
  assumes "shapes_predict L" and "gp_noiseless L g h = (t, Inr g')"
  shows "gp_shape g'"
  using assms(2) unfolding gp_noiseless_def Let_def
  apply (clarsimp simp: bnd_Inr_iff run_simps construct_Inr_iff split: prod.splits)
  subgoal for a b
    using assms(1)[unfolded shapes_predict_def, rule_format, of _ _ a b]
    by (auto simp: gp_shape_def column_T rows_def)
  done

lemma gp_figure_post:
  assumes "gp_shape g" and "gp_figure L l1 l2 g h = (t, Inr g')"
  shows "gp_shape g'"
  using assms unfolding gp_figure_def Let_def
  by (auto simp: bnd_Inr_iff run_simps construct_Inr_iff gp_shape_def)

lemma gp_plot_noiseless_post:
  assumes "gp_shape g" and "gp_plot_noiseless L g h = (t, Inr g')"
  shows "gp_shape g'"
proof -
  from assms(2) obtain p1 p2 p3 p4 h' t' where
    "gp_figure L 195 198 (g\<lparr>v_p1 := p1, v_p2 := p2, v_p3 := p3, v_p4 := p4\<rparr>) h' = (t', Inr g')"
    unfolding gp_plot_noiseless_def by (auto simp: bnd_Inr_iff)
  moreover from assms(1) have "gp_shape (g\<lparr>v_p1 := p1, v_p2 := p2, v_p3 := p3, v_p4 := p4\<rparr>)"
    by (simp add: gp_shape_def)
  ultimately show ?thesis by (rule gp_figure_post[rotated])
qed

lemma gp_plot_noisy_post:
  assumes "gp_shape g" and "gp_plot_noisy L g h = (t, Inr g')"
  shows "gp_shape g'"
proof -
  from assms(2) obtain p1 p2 p3 p4 h' t' where
    "gp_figure L 302 305 (g\<lparr>v_p1 := p1, v_p2 := p2, v_p3 := p3, v_p4 := p4\<rparr>) h' = (t', Inr g')"
    unfolding gp_plot_noisy_def by (auto simp: bnd_Inr_iff)
  moreover from assms(1) have "gp_shape (g\<lparr>v_p1 := p1, v_p2 := p2, v_p3 := p3, v_p4 := p4\<rparr>)"
    by (simp add: gp_shape_def)
  ultimately show ?thesis by (rule gp_figure_post[rotated])
qed

lemma gp_iplot_post:
  assumes "gp_shape g" and "gp_iplot L line g h = (t, Inr g')"
  shows "gp_shape g'"
  using assms unfolding gp_iplot_def by (auto simp: bnd_Inr_iff run_simps)

lemma gp_noisy_post:
  assumes "shapes_predict L" and "gp_shape g" and "gp_noisy L g h = (t, Inr g')"
  shows "gp_shape g'"
  using assms(3) unfolding gp_noisy_def Let_def
  apply (clarsimp simp: bnd_Inr_iff run_simps construct_Inr_iff split: prod.splits)
  subgoal for u noise y q a b
    using assms(1)[unfolded shapes_predict_def, rule_format, of _ _ a b] assms(2)
    by (auto simp: gp_shape_def column_T rows_def)
  done

lemma other_sites:
  "line \<noteq> 186 \<Longrightarrow> line \<noteq> 293 \<Longrightarrow> confidence_shape (Call line a obj as kws)"
  by (simp add: confidence_shape_def)

lemma plain_cells_shape:
  "emits confidence_shape (gp_setup L g)"
  "emits confidence_shape (gp_noiseless L g)"
  "emits confidence_shape (gp_noisy L g)"
  "emits confidence_shape (gp_iplot L 223 g)"
  "emits confidence_shape (gp_iplot L 330 g)"
  "emits confidence_shape (gp_publish L)"
  "emits confidence_shape (gp_figure L 195 198 g)"
  "emits confidence_shape (gp_figure L 302 305 g)"
  "emits confidence_shape (function_trace L 170 g)"
  "emits confidence_shape (function_trace L 276 g)"
  "emits confidence_shape (prediction_trace L 180 g)"
  "emits confidence_shape (prediction_trace L 287 g)"
  unfolding gp_cells Let_def
  by ((rule emits_intros emits_bnd | simp add: other_sites)+)

lemma gp_plot_noiseless_shape:
  assumes "gp_shape g"
  shows "emits confidence_shape (gp_plot_noiseless L g)"
  unfolding gp_plot_noiseless_def
  by (intro emits_bnd emits_lift emits_construct plain_cells_shape
      confidence_trace_shape[OF assms] other_sites) simp_all

lemma gp_plot_noisy_shape:
  assumes "gp_shape g"
  shows "emits confidence_shape (gp_plot_noisy L g)"
  unfolding gp_plot_noisy_def
  by (intro emits_bnd emits_lift emits_construct plain_cells_shape
      confidence_trace_shape[OF assms] other_sites) simp_all

lemma gp_setup_post: "gp_setup L g h = (t, Inr g') \<Longrightarrow> g' = g"
  unfolding gp_setup_def by (auto simp: bnd_Inr_iff run_simps)

lemma gp_notebook_shape:
  assumes L: "shapes_predict L"
  shows "emits confidence_shape (gp_notebook L)"
  unfolding gp_notebook_def
proof (intro emits_bnd plain_cells_shape emits_ret)
  fix h1 t1 g1 h2 t2 g2
  assume "gp_noiseless L g1 h2 = (t2, Inr g2)"
  then have g2: "gp_shape g2" by (rule gp_noiseless_post[OF L])
  then show "emits confidence_shape (gp_plot_noiseless L g2)" by (rule gp_plot_noiseless_shape)
  fix h3 t3 g3 h4 t4 g4 h5 t5 g5
  assume "gp_plot_noiseless L g2 h3 = (t3, Inr g3)"
  then have g3: "gp_shape g3" by (rule gp_plot_noiseless_post[OF g2])
  assume "gp_iplot L 223 g3 h4 = (t4, Inr g4)"
  then have g4: "gp_shape g4" by (rule gp_iplot_post[OF g3])
  assume "gp_noisy L g4 h5 = (t5, Inr g5)"
  then have g5: "gp_shape g5" by (rule gp_noisy_post[OF L g4])
  then show "emits confidence_shape (gp_plot_noisy L g5)" by (rule gp_plot_noisy_shape)
qed

text \<open>
  C4. In the noiseless and in the noisy section of the Gaussian Process notebook alike,
  the trace \<open>p4\<close> named "95% confidence interval" pairs an \<open>x\<close> sequence of
  \<open>2 * len(x) = 2000\<close> values, the first column of \<open>x\<close> followed by its reverse, with
  a \<open>y\<close> sequence of \<open>len(x) = 1000\<close> values, \<open>y_pred - 1.9600 * sigma\<close> alone: the
  upper bound \<open>y_pred + 1.9600 * sigma\<close> is not part of it. So in every execution
  the two lengths differ. The hypothesis is the shape \<open>predict\<close> documents: one mean
  and one standard deviation for each row of its argument.
\<close>

theorem confidence_band_lengths:
  assumes "shapes_predict L"
  shows "list_all confidence_shape (trace (gp_notebook L)) \<and>
         list_all (lower_band_only g) (fst (confidence_trace L line g h))"
  using emitsD[OF gp_notebook_shape[OF assms]] confidence_trace_content[of g L line]
  by (simp add: emits_def)

lemma calm_shapes: "shapes_predict calm"
  using calm_documented by (simp add: documented_def)

theorem confidence_band_lengths_witness:
  "shapes_predict calm \<and> \<not> isl (outcome (gp_notebook calm)) \<and>
   list_all confidence_shape (trace (gp_notebook calm)) \<and>
   map tag (trace (gp_notebook calm)) ! 10 = (186, Scatter) \<and>
   map tag (trace (gp_notebook calm)) ! 22 = (293, Scatter)"
proof -
  have "map tag (trace (gp_notebook calm)) = gp_skeleton"
    by (rule followsD(2)[OF gp_follows gp_calm_returns])
  then show ?thesis
    using confidence_band_lengths[OF calm_shapes, of gp_vars0 0 "[]"] calm_shapes gp_calm_returns
    by (simp add: skeleton_eval)
qed

section \<open>Literal parameters\<close>

lemma bnd_assoc: "bnd (bnd m k) k' = bnd m (\<lambda>v. bnd (k v) k')"
  by (rule HOL.ext) (simp add: bnd_def split: prod.splits sum.splits)

lemma bnd_ret: "bnd (ret v) k = k v"
  by (rule HOL.ext) (simp add: bnd_def run_simps split: prod.splits)

lemma bnd_case_prod:
  "bnd (case v of (a, b) \<Rightarrow> m a b) k = (case v of (a, b) \<Rightarrow> bnd (m a b) k)"
  by (cases v) simp

lemma fb_ret: "follows_by tg [] (ret v)"
  by (simp add: follows_by_def run_simps List.map_filter_simps)

lemma fb_bnd:
  assumes "follows_by tg a m" and "\<And>v. follows_by tg b (k v)"
  shows "follows_by tg (a @ b) (bnd m k)"
  unfolding follows_by_def
proof
  fix h
  obtain t r where mh: "m h = (t, r)" by (cases "m h")
  from assms(1) have c: "case m h of (t, Inr v) \<Rightarrow> List.map_filter tg t = a
      | (t, Inl e) \<Rightarrow> prefix (List.map_filter tg t) a"
    by (simp add: follows_by_def)
  show "case bnd m k h of (t, Inr v) \<Rightarrow> List.map_filter tg t = a @ b
      | (t, Inl e) \<Rightarrow> prefix (List.map_filter tg t) (a @ b)"
  proof (cases r)
    case (Inl e)
    with mh c show ?thesis by (simp add: bnd_def)
  next
    case (Inr v)
    with mh c have a: "List.map_filter tg t = a" by simp
    from assms(2)[of v] have "case k v (h @ t) of (t', Inr v) \<Rightarrow> List.map_filter tg t' = b
        | (t', Inl e) \<Rightarrow> prefix (List.map_filter tg t') b"
      by (simp add: follows_by_def)
    with mh Inr a show ?thesis
      by (auto simp: bnd_def List.map_filter_def split: prod.splits sum.splits)
  qed
qed

lemma fb_extern:
  "tg ev = c \<Longrightarrow> follows_by tg (case c of None \<Rightarrow> [] | Some b \<Rightarrow> [b]) (extern respond ev)"
  by (auto simp: follows_by_def run_simps List.map_filter_simps split: sum.splits option.splits)

lemma fb_call_fn:
  assumes "tg (Call line a PNone as kws) = c" and "\<And>v. follows_by tg b (k v)"
  shows "follows_by tg ((case c of None \<Rightarrow> [] | Some b \<Rightarrow> [b]) @ b) (bnd (call_fn respond line a as kws) k)"
  unfolding call_fn_def by (rule fb_bnd) (rule fb_extern, rule assms(1), rule assms(2))

lemma fb_call_method:
  assumes "tg (Call line a obj as kws) = c" and "\<And>v. follows_by tg b (k v)"
  shows "follows_by tg ((case c of None \<Rightarrow> [] | Some b \<Rightarrow> [b]) @ b) (bnd (call_method respond line obj a as kws) k)"
  unfolding call_method_def by (rule fb_bnd) (rule fb_extern, rule assms(1), rule assms(2))

lemma fb_lift:
  assumes "\<And>v. follows_by tg b (k v)"
  shows "follows_by tg b (bnd (lift r) k)"
proof -
  have "follows_by tg [] (lift r)"
    by (simp add: follows_by_def run_simps List.map_filter_simps split: sum.splits)
  from fb_bnd[OF this assms] show ?thesis by simp
qed

lemma fb_case_prod: "(\<And>a b. follows_by tg sk (k a b)) \<Longrightarrow> follows_by tg sk (case v of (a, b) \<Rightarrow> k a b)"
  by (cases v) simp

lemma fb_for_each0:
  assumes "\<And>v s. follows_by tg b (body v s)"
  shows "follows_by tg (concat (replicate (length xs) b)) (for_each xs body s)"
proof (induction xs arbitrary: s)
  case Nil
  show ?case by (simp add: fb_ret)
next
  case (Cons x xs)
  have "follows_by tg (b @ concat (replicate (length xs) b))
          (bnd (body x s) (\<lambda>s'. for_each xs body s'))"
    by (rule fb_bnd) (rule assms, rule Cons)
  then show ?case by simp
qed

lemma fb_for_each:
  assumes "\<And>v s. follows_by tg b (body v s)" and "\<And>s'. follows_by tg c (k s')"
    and "length xs = n"
  shows "follows_by tg (concat (replicate n b) @ c) (bnd (for_each xs body s) k)"
proof -
  have "follows_by tg (concat (replicate (length xs) b) @ c) (bnd (for_each xs body s) k)"
    by (rule fb_bnd) (rule fb_for_each0, rule assms(1), rule assms(2))
  with assms(3) show ?thesis by simp
qed

lemmas fb_rules = fb_ret fb_call_fn fb_call_method fb_lift fb_case_prod

lemma gp_views: "\<exists>sk. \<forall>L. follows_by view sk (gp_notebook L)"
  apply (rule exI, rule allI)
  apply (simp add: gp_notebook_def gp_cells construct_def Let_def bnd_assoc bnd_ret bnd_case_prod)
  apply (rule fb_rules | (simp add: view_def relevant_def; fail))+
  done

lemma nn_views: "\<exists>sk. \<forall>L. follows_by view sk (nn_notebook L)"
  apply (rule exI, rule allI)
  apply (simp add: nn_notebook_def nn_cells construct_def Let_def bnd_assoc bnd_ret bnd_case_prod
      del: for_each.simps)
  apply (rule fb_rules fb_for_each
      | (simp add: view_def relevant_def; fail)
      | (simp add: n_samples_values_eq n_iter_def; fail)
      | simp add: nn_cells construct_def Let_def bnd_assoc bnd_ret bnd_case_prod del: for_each.simps)+
  done

lemma follows_byD:
  assumes "follows_by tg sk m"
  shows "prefix (List.map_filter tg (trace m)) sk"
    and "\<not> isl (outcome m) \<Longrightarrow> List.map_filter tg (trace m) = sk"
proof -
  obtain t r where m: "m [] = (t, r)" by (cases "m []")
  from assms have c: "case m [] of (t, Inr v) \<Rightarrow> List.map_filter tg t = sk
      | (t, Inl e) \<Rightarrow> prefix (List.map_filter tg t) sk"
    by (simp add: follows_by_def)
  from c m show "prefix (List.map_filter tg (trace m)) sk"
    by (cases r) (simp_all add: trace_def)
  from c m show "\<not> isl (outcome m) \<Longrightarrow> List.map_filter tg (trace m) = sk"
    by (cases r) (simp_all add: trace_def outcome_def)
qed

lemma gp_views_calm: "prefix (views (trace (gp_notebook L))) (views (trace (gp_notebook calm)))"
proof -
  from gp_views obtain sk where sk: "\<And>L. follows_by view sk (gp_notebook L)" by blast
  from follows_byD(2)[OF sk gp_calm_returns] follows_byD(1)[OF sk, of L]
  show ?thesis by (simp add: views_def)
qed

lemma nn_views_calm: "prefix (views (trace (nn_notebook L))) (views (trace (nn_notebook calm)))"
proof -
  from nn_views obtain sk where sk: "\<And>L. follows_by view sk (nn_notebook L)" by blast
  from follows_byD(2)[OF sk nn_calm_returns] follows_byD(1)[OF sk, of L]
  show ?thesis by (simp add: views_def)
qed

lemma gp_noisy_alpha_post:
  assumes "gp_noisy L g h = (t, Inr g')"
  shows "\<exists>q. broadcast1 (/) (v_dy g') (v_y g') = Inr q \<and>
     v_gp g' = PObj GaussianProcessRegressor []
       [(''kernel'', v_kernel g), (''alpha'', PVec (power_scalar q 2)),
        (''n_restarts_optimizer'', PInt 10)]"
  using assms unfolding gp_noisy_def Let_def
  by (auto simp: bnd_Inr_iff run_simps construct_Inr_iff split: prod.splits)

text \<open>
  C6, as amended. What the notebooks pass to the estimators and to the plotting
  service besides arrays of data is the same in every execution, whatever the
  libraries return: these parameters are literals of the source. The arrays are
  computed, and one of them is a parameter of an estimator: \<open>alpha\<close> of the
  \<open>GaussianProcessRegressor\<close> of the noisy case is \<open>(dy / y) ** 2\<close>, computed from
  the noise levels and the noisy observations.
\<close>

theorem literal_parameters:
  "prefix (views (trace (gp_notebook L))) (views (trace (gp_notebook calm))) \<and>
   prefix (views (trace (nn_notebook L))) (views (trace (nn_notebook calm))) \<and>
   (gp_noisy L g h = (t, Inr g') \<longrightarrow>
      (\<exists>q. broadcast1 (/) (v_dy g') (v_y g') = Inr q \<and>
           v_gp g' = PObj GaussianProcessRegressor []
             [(''kernel'', v_kernel g), (''alpha'', PVec (power_scalar q 2)),
              (''n_restarts_optimizer'', PInt 10)]))"
  using gp_views_calm nn_views_calm gp_noisy_alpha_post by blast

theorem literal_parameters_witness:
  "\<exists>g t g' q. gp_shape g \<and> gp_noisy calm g [] = (t, Inr g') \<and>
     broadcast1 (/) (v_dy g') (v_y g') = Inr q \<and>
     v_gp g' = PObj GaussianProcessRegressor []
       [(''kernel'', v_kernel g), (''alpha'', PVec (power_scalar q 2)),
        (''n_restarts_optimizer'', PInt 10)]"
proof -
  from yieldsD[OF gp_noiseless_yields[OF calm_reliable calm_documented], of gp_vars0 "[]"]
  obtain t0 g where g: "gp_shape g" by blast
  from yieldsD[OF gp_noisy_yields[OF calm_reliable calm_documented g], of "[]"]
  obtain t g' where run: "gp_noisy calm g [] = (t, Inr g')" by blast
  from literal_parameters[of calm g "[]" t g'] run g show ?thesis by blast
qed

lemma drawing_reliable: "reliable (drawing c)"
  by (simp add: reliable_def drawing_def calm_def)

lemma drawing_documented: "documented (drawing c)"
  by (simp add: documented_def shapes_random_def shapes_predict_def range_randint_def
      shapes_blobs_def drawing_def calm_def)

lemma drawing_r_vec:
  "r_vec (drawing c) h ev =
     Inr (replicate (rows (last (args ev))) (if api ev = NpRandomRandom then c else 0))"
  by (simp add: drawing_def)

lemma ravel_column: "ravel (f (np_T (atleast_2d v))) = map (\<lambda>a. a * sin a) v"
  unfolding column_T f_rows ravel_def by (induction v) simp_all

lemma other_sites_alpha:
  "line \<noteq> 251 \<Longrightarrow>
   (if site (Call line a obj as kws) = 251
    then kwarg (Call line a obj as kws) ''alpha'' = Some (PVec w) else True)"
  by simp

lemma gp_noisy_alpha_drawing:
  "emits (\<lambda>ev. if site ev = 251 then kwarg ev ''alpha'' = Some (PVec (alpha_drawing c)) else True)
     (gp_noisy (drawing c) g)"
  unfolding gp_noisy_def Let_def ravel_column
  apply (intro emits_bnd emits_lift emits_construct emits_call_fn emits_call_method
    emits_case_prod emits_ret)
  apply simp_all
  apply (clarsimp simp: run_simps drawing_r_vec rows_def scalar_add_def scalar_mul_def iadd_def
      broadcast1_def kwarg_def alpha_drawing_def ravel_column split: if_splits)
  done

lemma gp_alpha_drawing:
  "emits (\<lambda>ev. if site ev = 251 then kwarg ev ''alpha'' = Some (PVec (alpha_drawing c)) else True)
     (gp_notebook (drawing c))"
  unfolding gp_notebook_def
  apply (intro emits_bnd gp_noisy_alpha_drawing emits_ret)
  unfolding gp_cells Let_def
  apply (rule emits_intros emits_bnd | simp)+
  done

lemma linspace_first: "0 < n \<Longrightarrow> linspace a b n ! 0 = a"
  by (simp add: linspace_def)

lemma alpha_drawing_first:
  "alpha_drawing c ! 0 = ((1 / 2 + c) / (1 / 10 * sin (1 / 10)))\<^sup>2"
  by (simp add: alpha_drawing_def Let_def ravel_column power_scalar_def scalar_add_def
      scalar_mul_def linspace_first)

lemma alpha_drawing_differ: "alpha_drawing 0 \<noteq> alpha_drawing (1 / 2)"
proof
  assume "alpha_drawing 0 = alpha_drawing (1 / 2)"
  then have "alpha_drawing 0 ! 0 = alpha_drawing (1 / 2) ! 0" by simp
  then have eq: "((1 / 2) / (1 / 10 * sin (1 / 10 :: real)))\<^sup>2 = (1 / (1 / 10 * sin (1 / 10)))\<^sup>2"
    by (simp add: alpha_drawing_first)
  have "(0::real) < sin (1 / 10)"
    by (rule sin_gt_zero) (use pi_ge_two in simp_all)
  then have pos: "0 < 1 / 10 * sin (1 / 10 :: real)" by simp
  from eq have "(1 / 2) / (1 / 10 * sin (1 / 10 :: real)) = 1 / (1 / 10 * sin (1 / 10))"
    using pos by (simp add: power2_eq_iff_nonneg)
  with pos show False by (simp add: field_simps)
qed

text \<open>
  C6 as stated fails: \<open>alpha\<close> at line 251 is computed from random draws. In two
  runs in which every call succeeds, one where \<open>np.random.random\<close> draws zeros and
  one where it draws halves, the regressor of the noisy case is built with different
  values of \<open>alpha\<close>.
\<close>

theorem literal_parameters_counterexample:
  "alphas (trace (gp_notebook (drawing 0))) \<noteq> alphas (trace (gp_notebook (drawing (1 / 2))))"
proof
  let ?t = "\<lambda>c. trace (gp_notebook (drawing c))"
  assume eq: "alphas (?t 0) = alphas (?t (1 / 2))"
  have all: "\<forall>a\<in>set (alphas (?t c)). a = Some (PVec (alpha_drawing c))" for c
    using emitsD[OF gp_alpha_drawing, of c] by (auto simp: alphas_def list_all_iff)
  have "map tag (?t 0) = gp_skeleton"
    by (rule followsD(2)[OF gp_follows
          yields_returns[OF gp_notebook_yields[OF drawing_reliable drawing_documented]]])
  moreover have "(251, GaussianProcessRegressor) \<in> set gp_skeleton"
    by (simp add: gp_skeleton_def)
  ultimately obtain ev where "ev \<in> set (?t 0)" and "tag ev = (251, GaussianProcessRegressor)"
    by (metis (no_types, lifting) image_iff set_map)
  then have m0: "kwarg ev ''alpha'' \<in> set (alphas (?t 0))"
    by (auto simp: alphas_def tag_def)
  with all[of 0] have a0: "kwarg ev ''alpha'' = Some (PVec (alpha_drawing 0))" by blast
  from m0 eq have "kwarg ev ''alpha'' \<in> set (alphas (?t (1 / 2)))" by simp
  with all[of "1 / 2"] have "kwarg ev ''alpha'' = Some (PVec (alpha_drawing (1 / 2)))" by blast
  with a0 alpha_drawing_differ show False by simp
qed

section \<open>Arguments are left unchanged\<close>

lemma kept_refl: "kept s s"
  by (simp add: kept_def)

lemma kept_trans: "kept s s' \<Longrightarrow> kept s' s'' \<Longrightarrow> kept s s''"
  by (auto simp: kept_def)

lemma kept_alloc: "alloc ob s = (a, s') \<Longrightarrow> kept s s' \<and> a = fresh s \<and> heap s' a = Some ob"
  by (auto simp: alloc_def kept_def)

lemma f_store_frame:
  assumes "f_store x s = Inr (y, s')"
  shows "kept s s' \<and> fresh s \<le> buf y \<and> shp y = shp x"
  using assms unfolding f_store_def
  by (auto simp: ebind_def alloc_def kept_def Let_def split: sum.splits prod.splits)

lemma f_store_result:
  assumes "f_store x s = Inr (y, s')" and "heap s (buf x) = Some (Buffer v)"
  shows "heap s' (buf y) = Some (Buffer (map (\<lambda>a. a * sin a) v))"
  using assms unfolding f_store_def
  by (auto simp: ebind_def alloc_def read_buffer_def Let_def zip_map2 zip_same_conv_map comp_def
      split: sum.splits prod.splits option.splits obj.splits if_splits)

lemma matrix_of_f: "f (matrix_of r c v) = matrix_of r c (map (\<lambda>a. a * sin a) v)"
  by (simp add: f_rows matrix_of_def take_map drop_map)

lemma append_store_frame:
  assumes "append_store k e s = Inr s'"
  shows "fresh s' = fresh s \<and> (\<forall>a. a \<noteq> k \<longrightarrow> heap s' a = heap s a)"
  using assms by (auto simp: append_store_def split: option.splits obj.splits)

lemma loop_frame:
  assumes "data_to_plotly_store_loop x k idx s = Inr s'"
  shows "fresh s' = fresh s \<and> (\<forall>a. a \<noteq> k \<longrightarrow> heap s' a = heap s a)"
  using assms
proof (induction idx arbitrary: s)
  case Nil
  then show ?case by simp
next
  case (Cons i rest)
  from Cons.prems obtain v e s1 where
    a: "append_store k e s = Inr s1" and r: "data_to_plotly_store_loop x k rest s1 = Inr s'"
    by (auto simp: ebind_def split: sum.splits)
  from append_store_frame[OF a] Cons.IH[OF r] show ?case by simp
qed

lemma data_to_plotly_store_frame:
  assumes "data_to_plotly_store x s = Inr (k, s')"
  shows "kept s s' \<and> k = fresh s"
proof -
  from assms obtain s0 where
    a: "alloc (PyList []) s = (k, s0)" and l: "data_to_plotly_store_loop x k [0..<first_dim (shp x)] s0 = Inr s'"
    unfolding data_to_plotly_store_def
    by (auto simp: ebind_def Let_def split: prod.splits sum.splits)
  from kept_alloc[OF a] loop_frame[OF l] show ?thesis
    by (auto simp: kept_def)
qed

lemma loop_result:
  assumes "data_to_plotly_store_loop x k idx s = Inr s'"
    and "heap s k = Some (PyList acc)" and "heap s (buf x) = Some (Buffer v)" and "buf x \<noteq> k"
    and "shp x = Dim2 r c"
  shows "heap s' k = Some (PyList (acc @ map (\<lambda>i. v ! (i * c)) idx)) \<and>
         (\<forall>i\<in>set idx. i < r \<and> 0 < c \<and> i * c < length v)"
  using assms(1,2,3)
proof (induction idx arbitrary: s acc)
  case Nil
  then show ?case by simp
next
  case (Cons i rest)
  from Cons.prems(1,3) obtain e s1 where
    e: "item_0 (shp x) v i = Inr e" and
    a: "append_store k e s = Inr s1" and
    r: "data_to_plotly_store_loop x k rest s1 = Inr s'"
    by (auto simp: ebind_def read_buffer_def split: sum.splits)
  from e assms(5) have i: "i < r \<and> 0 < c \<and> i * c < length v" and ev: "e = v ! (i * c)"
    by (auto simp: item_0_def split: if_splits)
  from a Cons.prems(2) have k1: "heap s1 k = Some (PyList (acc @ [e]))"
    by (auto simp: append_store_def)
  from append_store_frame[OF a] assms(4) Cons.prems(3)
  have x1: "heap s1 (buf x) = Some (Buffer v)" by simp
  from Cons.IH[OF r k1 x1] i ev show ?case by simp
qed

lemma data_to_plotly_store_refines:
  assumes "data_to_plotly_store x s = Inr (k, s')"
    and "heap s (buf x) = Some (Buffer v)" and "buf x < fresh s" and "shp x = Dim2 r c"
  shows "\<exists>ks. heap s' k = Some (PyList ks) \<and> data_to_plotly (matrix_of r c v) = Inr ks"
proof -
  from assms(1) obtain s0 where
    a: "alloc (PyList []) s = (k, s0)" and
    l: "data_to_plotly_store_loop x k [0..<first_dim (shp x)] s0 = Inr s'"
    unfolding data_to_plotly_store_def
    by (auto simp: ebind_def Let_def split: prod.splits sum.splits)
  from kept_alloc[OF a] assms(2,3) have
    k0: "heap s0 k = Some (PyList [])" and x0: "heap s0 (buf x) = Some (Buffer v)" and ne: "buf x \<noteq> k"
    by (auto simp: kept_def)
  from loop_result[OF _ k0 x0 ne assms(4), of "[0..<r]" s'] l assms(4)
  have res: "heap s' k = Some (PyList (map (\<lambda>i. v ! (i * c)) [0..<r]))"
    and ok: "\<forall>i<r. 0 < c \<and> i * c < length v"
    by (auto simp: first_dim_def)
  have rows: "\<forall>row\<in>set (matrix_of r c v). row \<noteq> []"
    using ok by (auto simp: matrix_of_def)
  have "map (\<lambda>row. row ! 0) (matrix_of r c v) = map (\<lambda>i. v ! (i * c)) [0..<r]"
    using ok by (auto simp: matrix_of_def)
  with data_to_plotly_ok[OF rows] res show ?thesis by simp
qed

lemma noisy_data_store_frame:
  assumes "noisy_data_store u nz s = Inr (nd, s')"
  shows "kept s s' \<and> fresh s \<le> buf (nd_X nd) \<and>
         heap s' (buf (nd_X nd)) = Some (Buffer (linspace 0.1 9.9 20)) \<and>
         buf (nd_y nd) \<noteq> buf (nd_X nd)"
proof -
  let ?X = "\<lparr>buf = fresh s, shp = Dim2 20 1\<rparr>"
  let ?s1 = "s\<lparr>heap := (heap s)(fresh s \<mapsto> Buffer (linspace 0.1 9.9 20)), fresh := Suc (fresh s)\<rparr>"
  have a1: "alloc (Buffer (linspace 0.1 9.9 20)) s = (fresh s, ?s1)" by (simp add: alloc_def)
  from assms a1 obtain fX s2 where f: "f_store ?X ?s1 = Inr (fX, s2)"
    unfolding noisy_data_store_def by (auto simp: ebind_def Let_def split: sum.splits)
  obtain b_u s3 where a3: "alloc (Buffer u) s2 = (b_u, s3)" by (cases "alloc (Buffer u) s2")
  obtain b_m s4 where a4: "alloc (Buffer (scalar_mul 1.0 u)) s3 = (b_m, s4)"
    by (cases "alloc (Buffer (scalar_mul 1.0 u)) s3")
  obtain b_dy s5 where a5: "alloc (Buffer (scalar_add 0.5 (scalar_mul 1.0 u))) s4 = (b_dy, s5)"
    by (cases "alloc (Buffer (scalar_add 0.5 (scalar_mul 1.0 u))) s4")
  obtain b_n s6 where a6: "alloc (Buffer nz) s5 = (b_n, s6)" by (cases "alloc (Buffer nz) s5")
  from assms a1 f a3 a4 a5 a6 have
    i: "iadd_store \<lparr>buf = buf fX, shp = Dim1 20\<rparr> \<lparr>buf = b_n, shp = Dim1 (length nz)\<rparr> s6 = Inr s'"
    and nd: "nd_X nd = ?X" "buf (nd_y nd) = buf fX"
    unfolding noisy_data_store_def
    by (auto simp: ebind_def Let_def split: sum.splits)
  from f_store_frame[OF f] have k12: "kept ?s1 s2" and new: "fresh ?s1 \<le> buf fX" by simp_all
  have k1: "kept s ?s1" using kept_alloc[OF a1] by simp
  have k26: "kept s2 s6"
    using kept_alloc[OF a3] kept_alloc[OF a4] kept_alloc[OF a5] kept_alloc[OF a6]
    by (blast intro: kept_trans)
  from i have k67: "\<forall>a. a \<noteq> buf fX \<longrightarrow> heap s' a = heap s6 a" "fresh s' = fresh s6"
    by (auto simp: iadd_store_def ebind_def split: sum.splits)
  have x: "heap ?s1 (fresh s) = Some (Buffer (linspace 0.1 9.9 20))" by simp
  have "heap s' (fresh s) = Some (Buffer (linspace 0.1 9.9 20))"
    using x k12 k26 k67 new by (auto simp: kept_def)
  moreover have "kept s s'"
    using k1 k12 k26 k67 new unfolding kept_def by (auto simp: less_Suc_eq)
  ultimately show ?thesis using nd new by simp
qed

lemma gp_no_store: "emits (\<lambda>ev. \<not> stores_data ev) (gp_notebook L)"
  unfolding gp_notebook_def gp_cells Let_def
  by (rule emits_intros emits_bnd | simp add: stores_data_def writes_locally_def)+

lemma nn_no_store: "emits (\<lambda>ev. \<not> stores_data ev) (nn_notebook L)"
  unfolding nn_notebook_def nn_cells Let_def
  by (rule emits_intros emits_bnd | simp add: stores_data_def writes_locally_def)+

text \<open>
  C10. The repository defines no persistent entity. \<open>f\<close> and \<open>data_to_plotly\<close>
  leave the arrays they are given unchanged: every object that was in the store
  before the call is in it unchanged after it, and what they return is new. The same
  holds for the data of the noisy case, where \<open>y += noise\<close> writes into the array
  \<open>f(X)\<close> returned and leaves \<open>X\<close> as \<open>np.linspace\<close> built it. The arrays and the
  chart objects the notebooks build are handed to the estimators and to the plotting
  calls only: no call that writes to local storage is given one.
\<close>

theorem arguments_unchanged:
  "(f_store x s = Inr (y, s1) \<longrightarrow>
      kept s s1 \<and> fresh s \<le> buf y \<and>
      (buf x < fresh s \<longrightarrow> heap s1 (buf x) = heap s (buf x))) \<and>
   (data_to_plotly_store x s = Inr (k, s2) \<longrightarrow>
      kept s s2 \<and> k = fresh s \<and>
      (buf x < fresh s \<longrightarrow> heap s2 (buf x) = heap s (buf x))) \<and>
   (noisy_data_store u nz s = Inr (nd, s3) \<longrightarrow>
      kept s s3 \<and> heap s3 (buf (nd_X nd)) = Some (Buffer (linspace 0.1 9.9 20)) \<and>
      buf (nd_y nd) \<noteq> buf (nd_X nd)) \<and>
   list_all (\<lambda>ev. \<not> stores_data ev) (trace (gp_notebook L)) \<and>
   list_all (\<lambda>ev. \<not> stores_data ev) (trace (nn_notebook L))"
proof -
  have "kept s s1 \<and> fresh s \<le> buf y \<and> (buf x < fresh s \<longrightarrow> heap s1 (buf x) = heap s (buf x))"
    if "f_store x s = Inr (y, s1)"
    using f_store_frame[OF that] by (simp add: kept_def)
  moreover have "kept s s2 \<and> k = fresh s \<and> (buf x < fresh s \<longrightarrow> heap s2 (buf x) = heap s (buf x))"
    if "data_to_plotly_store x s = Inr (k, s2)"
    using data_to_plotly_store_frame[OF that] by (simp add: kept_def)
  moreover have "kept s s3 \<and> heap s3 (buf (nd_X nd)) = Some (Buffer (linspace 0.1 9.9 20)) \<and>
      buf (nd_y nd) \<noteq> buf (nd_X nd)"
    if "noisy_data_store u nz s = Inr (nd, s3)"
    using noisy_data_store_frame[OF that] by simp
  ultimately show ?thesis
    using emitsD[OF gp_no_store, of L] emitsD[OF nn_no_store, of L] by blast
qed

theorem arguments_unchanged_witness:
  "(\<exists>y s1. f_store \<lparr>buf = 0, shp = Dim2 2 2\<rparr>
              \<lparr>heap = [0 \<mapsto> Buffer [0, 1, 2, 3]], fresh = 1\<rparr> = Inr (y, s1) \<and>
            heap s1 0 = Some (Buffer [0, 1, 2, 3]) \<and> 1 \<le> buf y) \<and>
   (\<exists>k s2. data_to_plotly_store \<lparr>buf = 0, shp = Dim2 2 2\<rparr>
              \<lparr>heap = [0 \<mapsto> Buffer [0, 1, 2, 3]], fresh = 1\<rparr> = Inr (k, s2) \<and>
            heap s2 0 = Some (Buffer [0, 1, 2, 3]) \<and> heap s2 k = Some (PyList [0, 2])) \<and>
   (\<exists>nd s3. noisy_data_store (replicate 20 0) (replicate 20 0)
              \<lparr>heap = [0 \<mapsto> Buffer [0, 1, 2, 3]], fresh = 1\<rparr> = Inr (nd, s3) \<and>
            heap s3 0 = Some (Buffer [0, 1, 2, 3]) \<and>
            heap s3 (buf (nd_X nd)) = Some (Buffer (linspace 0.1 9.9 20)))"
proof -
  let ?s = "\<lparr>heap = [0 \<mapsto> Buffer [0, 1, 2, 3]], fresh = 1\<rparr>"
  let ?x = "\<lparr>buf = 0, shp = Dim2 2 2\<rparr>"
  obtain y s1 where f: "f_store ?x ?s = Inr (y, s1)"
    by (simp add: f_store_def read_buffer_def alloc_def)
  obtain k s2 where d: "data_to_plotly_store ?x ?s = Inr (k, s2)" "heap s2 k = Some (PyList [0, 2])"
    by (simp add: data_to_plotly_store_def alloc_def first_dim_def upt_rec read_buffer_def
        item_0_def append_store_def)
  obtain nd s3 where n: "noisy_data_store (replicate 20 0) (replicate 20 0) ?s = Inr (nd, s3)"
    by (simp add: noisy_data_store_def f_store_def read_buffer_def alloc_def iadd_store_def
        iadd_def Let_def)
  from arguments_unchanged[of ?x ?s y s1 k s2 "replicate 20 0" "replicate 20 0" nd s3] f d n
  show ?thesis by (auto simp: kept_def)
qed

end
